theory Spec2Isabelle
  imports Complex_Main
begin

section \<open>Shared vocabulary\<close>

text \<open>
  Actions, observations, world states, historical data and transition parameters are
  opaque polymorphic values of the solver; the embedding represents each by an identifier.
  A \<open>BeliefNode *\<close> is an identifier as well, and a nullable pointer is an \<open>option\<close>
  (\<open>None\<close> is \<open>nullptr\<close>). A \<open>double\<close> is a \<open>real\<close>: rounding is outside the embedding.
  A \<open>long\<close> is an \<open>int\<close> in the range of 64 bits. The only arithmetic the sources do on
  a \<open>long\<close> is the addition in \<open>updateQValue\<close>; there the sum is brought back into the
  range as two's complement addition does (\<open>LONG_MAX + 1\<close> is \<open>LONG_MIN\<close>).
\<close>

type_synonym Action = nat
type_synonym Observation = nat
type_synonym State = nat
type_synonym HistoricalData = nat
type_synonym TransitionParameters = nat
type_synonym BeliefNodePtr = nat

text \<open>What C++ leaves undefined is a value of the embedding, so that every such path is a branch.\<close>

datatype fault = NullDereference | EndIteratorDereference | EmptySequence

definition LONG_MAX :: int where
  "LONG_MAX = 2 ^ 63 - 1"

definition LONG_MIN :: int where
  "LONG_MIN = - (2 ^ 63)"

definition wrapLong :: "int \<Rightarrow> int" where
  "wrapLong x = (x + 2 ^ 63) mod 2 ^ 64 - 2 ^ 63"

section \<open>ActionNode.cpp\<close>

subsection \<open>The observation mapping owned by an action node\<close>

text \<open>
  Modelled from the spec: \<open>ObservationMapping\<close> (mappings/ObservationMapping.hpp is not
  among the sources). The spec describes it as a collection mapping observations to
  belief-node children. It is kept as an association list, in creation order, so that a
  duplicate key is representable and its absence is something to prove. \<open>getBelief\<close> is a
  pure lookup that returns null for an unseen observation; \<open>createBelief\<close> creates a child
  unconditionally (the existence check is \<open>ActionNode::createOrGetChild\<close>'s). The mapping
  owns its children, so a child's identity is its position among them.
\<close>

record ObservationMapping =
  children :: "(Observation \<times> BeliefNodePtr) list"

definition getBelief :: "ObservationMapping \<Rightarrow> Observation \<Rightarrow> BeliefNodePtr option" where
  "getBelief m obs = map_of (children m) obs"

definition createBelief :: "ObservationMapping \<Rightarrow> Observation \<Rightarrow> BeliefNodePtr option \<times> ObservationMapping" where
  "createBelief m obs =
     (Some (length (children m)),
      m\<lparr>children := children m @ [(obs, length (children m))]\<rparr>)"

subsection \<open>The node\<close>

text \<open>The members \<open>nParticles_\<close>, \<open>totalQValue_\<close>, \<open>meanQValue_\<close> and \<open>obsMap_\<close>; field names
  of a record cannot end in an underscore, so it is dropped.\<close>

record ActionNode =
  nParticles :: int
  totalQValue :: real
  meanQValue :: real
  obsMap :: "ObservationMapping option"

text \<open>\<open>ActionNode::ActionNode(std::unique_ptr<ObservationMapping> mapping)\<close>\<close>

definition newActionNode :: "ObservationMapping option \<Rightarrow> ActionNode" where
  "newActionNode mapping =
     \<lparr>nParticles = 0, totalQValue = 0, meanQValue = 0, obsMap = mapping\<rparr>"

text \<open>\<open>void ActionNode::updateQValue(double increase)\<close>\<close>

definition updateQValue :: "ActionNode \<Rightarrow> real \<Rightarrow> ActionNode" where
  "updateQValue n increase =
     (let n1 = n\<lparr>totalQValue := totalQValue n + increase\<rparr>
      in if nParticles n1 > 0
         then n1\<lparr>meanQValue := totalQValue n1 / of_int (nParticles n1)\<rparr>
         else n1\<lparr>meanQValue := 0\<rparr>)"

text \<open>\<open>void ActionNode::updateQValue(double increase, long deltaNParticles)\<close>\<close>

definition updateQValueN :: "ActionNode \<Rightarrow> real \<Rightarrow> int \<Rightarrow> ActionNode" where
  "updateQValueN n increase deltaNParticles =
     updateQValue (n\<lparr>nParticles := wrapLong (nParticles n + deltaNParticles)\<rparr>) increase"

definition getNParticles :: "ActionNode \<Rightarrow> int" where
  "getNParticles n = nParticles n"

definition getTotalQValue :: "ActionNode \<Rightarrow> real" where
  "getTotalQValue n = totalQValue n"

definition getMeanQValue :: "ActionNode \<Rightarrow> real" where
  "getMeanQValue n = meanQValue n"

text \<open>\<open>BeliefNode *ActionNode::getChild(Observation const &obs) const\<close>: \<open>obsMap\<close> is
  dereferenced without a check.\<close>

definition getChild :: "ActionNode \<Rightarrow> Observation \<Rightarrow> fault + BeliefNodePtr option" where
  "getChild n obs =
     (case obsMap n of
        None \<Rightarrow> Inl NullDereference
      | Some m \<Rightarrow> Inr (getBelief m obs))"

text \<open>\<open>std::pair<BeliefNode *, bool> ActionNode::createOrGetChild(Observation const &obs)\<close>\<close>

definition createOrGetChild ::
  "ActionNode \<Rightarrow> Observation \<Rightarrow> fault + ((BeliefNodePtr option \<times> bool) \<times> ActionNode)" where
  "createOrGetChild n obs =
     (case getChild n obs of
        Inl e \<Rightarrow> Inl e
      | Inr beliefChild \<Rightarrow>
          (if beliefChild = None
           then (case obsMap n of
                   None \<Rightarrow> Inl NullDereference
                 | Some m \<Rightarrow>
                     (let (created, m') = createBelief m obs
                      in Inr ((created, True), n\<lparr>obsMap := Some m'\<rparr>)))
           else Inr ((beliefChild, False), n)))"

subsection \<open>Sequences of calls\<close>

text \<open>A call of one of the two overloads of \<open>updateQValue\<close>, and a node driven through a
  list of them, in order.\<close>

datatype QCall = Update real | UpdateN real int

fun applyQCall :: "ActionNode \<Rightarrow> QCall \<Rightarrow> ActionNode" where
  "applyQCall n (Update increase) = updateQValue n increase"
| "applyQCall n (UpdateN increase deltaNParticles) = updateQValueN n increase deltaNParticles"

definition runQCalls :: "ActionNode \<Rightarrow> QCall list \<Rightarrow> ActionNode" where
  "runQCalls n cs = foldl applyQCall n cs"

fun deltaOf :: "QCall \<Rightarrow> int" where
  "deltaOf (Update increase) = 0"
| "deltaOf (UpdateN increase deltaNParticles) = deltaNParticles"

text \<open>The derived mean agrees with the stored pair: the quotient for a positive count,
  and \<open>0\<close> otherwise (for a count of zero, and for a negative one as well).\<close>

definition meanConsistent :: "ActionNode \<Rightarrow> bool" where
  "meanConsistent n \<longleftrightarrow>
     meanQValue n =
       (if nParticles n > 0 then totalQValue n / of_int (nParticles n) else 0)"

text \<open>A list of observations fed to \<open>createOrGetChild\<close> one after the other; a fault stops
  the run.\<close>

fun createAll :: "ActionNode \<Rightarrow> Observation list \<Rightarrow> fault + ActionNode" where
  "createAll n [] = Inr n"
| "createAll n (obs # rest) =
     (case createOrGetChild n obs of
        Inl e \<Rightarrow> Inl e
      | Inr (r, n') \<Rightarrow> createAll n' rest)"

definition childObservations :: "ActionNode \<Rightarrow> Observation list" where
  "childObservations n = (case obsMap n of None \<Rightarrow> [] | Some m \<Rightarrow> map fst (children m))"

section \<open>ActionMapping.hpp\<close>

text \<open>
  \<open>ActionMapping\<close> is an abstract class: \<open>getEntry\<close> is pure virtual and
  \<open>ActionMappingEntry::update\<close> is declared in a header that is not among the sources.
  Both are parameters of the embedding. An entry is reached through a pointer into the
  mapping, so its update changes the mapping: \<open>putEntry\<close> writes the updated entry back.
\<close>

record ('m, 'e) ActionMappingOps =
  getEntry :: "'m \<Rightarrow> Action \<Rightarrow> 'e option"
  putEntry :: "'m \<Rightarrow> Action \<Rightarrow> 'e \<Rightarrow> 'm"
  entryUpdate :: "'e \<Rightarrow> int \<Rightarrow> real \<Rightarrow> bool \<times> 'e"

text \<open>\<open>virtual bool update(Action const &action, long deltaNVisits, double deltaTotalQ)\<close>\<close>

definition update ::
  "('m, 'e) ActionMappingOps \<Rightarrow> 'm \<Rightarrow> Action \<Rightarrow> int \<Rightarrow> real \<Rightarrow> fault + (bool \<times> 'm)" where
  "update ops m action deltaNVisits deltaTotalQ =
     (case getEntry ops m action of
        None \<Rightarrow> Inl NullDereference
      | Some e \<Rightarrow>
          (let (changed, e') = entryUpdate ops e deltaNVisits deltaTotalQ
           in Inr (changed, putEntry ops m action e')))"

text \<open>A concrete mapping for evaluation: a table from actions to (visit count, total
  value) pairs, whose entry update reports whether the total moved.\<close>

definition tableOps :: "(Action \<Rightarrow> (int \<times> real) option, int \<times> real) ActionMappingOps" where
  "tableOps =
     \<lparr>getEntry = (\<lambda>m a. m a),
      putEntry = (\<lambda>m a e. m(a \<mapsto> e)),
      entryUpdate = (\<lambda>e dn dq. (dq \<noteq> 0, (fst e + dn, snd e + dq)))\<rparr>"

section \<open>The search interface: \<open>search_interface.cpp\<close>\<close>

subsection \<open>Status, steps and history\<close>

text \<open>
  Modelled from the spec: \<open>SearchStatus\<close> (search/SearchStatus.hpp is not among the
  sources). The five named values are the ones \<open>extendSequence\<close> tests; \<open>INVALID\<close>
  stands for any other value of the enumeration's underlying type, which the last
  branch of \<open>extendSequence\<close> provides for.
\<close>

datatype SearchStatus = UNINITIALIZED | INITIAL | OUT_OF_STEPS | ERROR | FINISHED | INVALID nat

text \<open>
  Modelled from the spec: \<open>Model::StepResult\<close>, with the members \<open>extendSequence\<close> reads.
  \<open>action\<close>, \<open>observation\<close>, \<open>transitionParameters\<close> and \<open>nextState\<close> are owning
  pointers and may be null.
\<close>

record StepResult =
  action :: "Action option"
  reward :: real
  observation :: "Observation option"
  transitionParameters :: "TransitionParameters option"
  nextState :: "State option"
  isTerminal :: bool

text \<open>
  Modelled from the spec: \<open>HistoryEntry\<close>, with the members \<open>extendSequence\<close> assigns
  (\<open>immediateReward_\<close>, \<open>action_\<close>, \<open>transitionParameters_\<close>, \<open>observation_\<close>), the state
  it is bound to and the belief node it is registered with. The state pool keeps one
  \<open>StateInfo\<close> for each distinct state, so a \<open>StateInfo *\<close> is represented by its state.
\<close>

record HistoryEntry =
  stateInfo :: State
  immediateReward :: real
  entryAction :: "Action option"
  entryTransitionParameters :: "TransitionParameters option"
  entryObservation :: "Observation option"
  associatedBeliefNode :: "BeliefNodePtr option"

definition getState :: "HistoryEntry \<Rightarrow> State" where
  "getState e = stateInfo e"

definition getAction :: "HistoryEntry \<Rightarrow> Action option" where
  "getAction e = entryAction e"

definition getAssociatedBeliefNode :: "HistoryEntry \<Rightarrow> BeliefNodePtr option" where
  "getAssociatedBeliefNode e = associatedBeliefNode e"

definition registerNode :: "HistoryEntry \<Rightarrow> BeliefNodePtr \<Rightarrow> HistoryEntry" where
  "registerNode e node = e\<lparr>associatedBeliefNode := Some node\<rparr>"

text \<open>\<open>HistorySequence::addEntry(StateInfo *)\<close>: a fresh entry bound to the state, appended.\<close>

definition newHistoryEntry :: "State \<Rightarrow> HistoryEntry" where
  "newHistoryEntry info =
     \<lparr>stateInfo = info, immediateReward = 0, entryAction = None,
      entryTransitionParameters = None, entryObservation = None,
      associatedBeliefNode = None\<rparr>"

definition addEntry :: "HistoryEntry list \<Rightarrow> State \<Rightarrow> HistoryEntry list" where
  "addEntry entries info = entries @ [newHistoryEntry info]"

text \<open>\<open>currentEntry\<close> always points at the last entry of the sequence; an assignment
  through it rewrites that entry in place.\<close>

definition updateLast :: "('a \<Rightarrow> 'a) \<Rightarrow> 'a list \<Rightarrow> 'a list" where
  "updateLast f xs = (case xs of [] \<Rightarrow> [] | _ \<Rightarrow> butlast xs @ [f (last xs)])"

text \<open>\<open>StatePool::createOrGetInfo\<close>, modelled from the spec: storage of world states
  without duplicates.\<close>

definition createOrGetInfo :: "State list \<Rightarrow> State \<Rightarrow> State \<times> State list" where
  "createOrGetInfo pool s = (s, if s \<in> set pool then pool else pool @ [s])"

subsection \<open>Step generators\<close>

text \<open>
  \<open>StepGeneratorFactory::createGenerator\<close> and \<open>StepGenerator::getStep\<close> are virtual;
  their implementations are parameters. \<open>'f\<close> is a factory object and \<open>'g\<close> a generator
  object (its dynamic class and its state). A generator is bound to the caller's
  \<open>SearchStatus\<close> by reference: both calls take the status and return it, possibly
  changed. \<open>getStep\<close> also returns the generator, possibly changed. A factory's product
  is a generator: the source calls \<open>getStep\<close> on it without a check.
\<close>

record ('f, 'g) GeneratorOps =
  createGenerator ::
    "'f \<Rightarrow> SearchStatus \<Rightarrow> HistoryEntry \<Rightarrow> State \<Rightarrow> HistoricalData \<Rightarrow> fault + ('g \<times> SearchStatus)"
  getStep ::
    "'g \<Rightarrow> HistoryEntry \<Rightarrow> State \<Rightarrow> HistoricalData \<Rightarrow> SearchStatus
       \<Rightarrow> fault + (StepResult \<times> 'g \<times> SearchStatus)"

text \<open>The members \<open>factories_\<close>, \<open>iterator_\<close> and \<open>generator_\<close>. A \<open>const_iterator\<close> into
  the vector is the list of the factories from its position on: \<open>cend()\<close> is \<open>[]\<close>,
  \<open>*iterator_\<close> the head and \<open>iterator_++\<close> the tail.\<close>

record ('f, 'g) StagedStepGenerator =
  factories :: "'f list"
  iterator :: "'f list"
  generator :: "'g option"

text \<open>\<open>StagedStepGenerator::StagedStepGenerator\<close>\<close>

definition newStagedStepGenerator ::
  "('f, 'g) GeneratorOps \<Rightarrow> SearchStatus \<Rightarrow> 'f list \<Rightarrow> HistoryEntry \<Rightarrow> State \<Rightarrow> HistoricalData
     \<Rightarrow> fault + (('f, 'g) StagedStepGenerator \<times> SearchStatus)" where
  "newStagedStepGenerator ops status facs entry state data =
     (let sg = \<lparr>factories = facs, iterator = facs, generator = None\<rparr>
      in case iterator sg of
           [] \<Rightarrow> Inl EndIteratorDereference
         | f # rest \<Rightarrow>
             (case createGenerator ops f status entry state data of
                Inl e \<Rightarrow> Inl e
              | Inr (g, status') \<Rightarrow> Inr (sg\<lparr>generator := Some g, iterator := rest\<rparr>, status')))"

text \<open>The \<open>while (result.action == nullptr)\<close> loop of \<open>StagedStepGenerator::getStep\<close>.\<close>

function stagedLoop ::
  "('f, 'g) GeneratorOps \<Rightarrow> HistoryEntry \<Rightarrow> State \<Rightarrow> HistoricalData
     \<Rightarrow> StepResult \<Rightarrow> ('f, 'g) StagedStepGenerator \<Rightarrow> SearchStatus
     \<Rightarrow> fault + (StepResult \<times> ('f, 'g) StagedStepGenerator \<times> SearchStatus)" where
  "stagedLoop ops entry state data result sg status =
     (if action result = None
      then (if status = FINISHED \<or> iterator sg = []
            then Inr (result, sg\<lparr>generator := None\<rparr>, status)
            else (case createGenerator ops (hd (iterator sg)) status entry state data of
                    Inl e \<Rightarrow> Inl e
                  | Inr (g, status1) \<Rightarrow>
                      (case getStep ops g entry state data status1 of
                         Inl e \<Rightarrow> Inl e
                       | Inr (result', g', status2) \<Rightarrow>
                           stagedLoop ops entry state data result'
                             (sg\<lparr>generator := Some g', iterator := tl (iterator sg)\<rparr>) status2)))
      else Inr (result, sg, status))"
  by pat_completeness auto
termination
  by (relation "measure (\<lambda>(ops, entry, state, data, result, sg, status). length (iterator sg))")
     auto

declare stagedLoop.simps [simp del]

text \<open>\<open>Model::StepResult StagedStepGenerator::getStep\<close>\<close>

definition StagedStepGenerator_getStep ::
  "('f, 'g) GeneratorOps \<Rightarrow> ('f, 'g) StagedStepGenerator \<Rightarrow> HistoryEntry \<Rightarrow> State
     \<Rightarrow> HistoricalData \<Rightarrow> SearchStatus
     \<Rightarrow> fault + (StepResult \<times> ('f, 'g) StagedStepGenerator \<times> SearchStatus)" where
  "StagedStepGenerator_getStep ops sg entry state data status =
     (case generator sg of
        None \<Rightarrow> Inl NullDereference
      | Some g0 \<Rightarrow>
          (case getStep ops g0 entry state data status of
             Inl e \<Rightarrow> Inl e
           | Inr (result, g', status1) \<Rightarrow>
               stagedLoop ops entry state data result (sg\<lparr>generator := Some g'\<rparr>) status1))"

text \<open>\<open>StagedStepGeneratorFactory::createGenerator\<close>; the factory object is its list
  \<open>factories_\<close>. Together with \<open>getStep\<close> it makes the staged generator a generator.\<close>

definition StagedStepGeneratorFactory_createGenerator ::
  "('f, 'g) GeneratorOps \<Rightarrow> 'f list \<Rightarrow> SearchStatus \<Rightarrow> HistoryEntry \<Rightarrow> State \<Rightarrow> HistoricalData
     \<Rightarrow> fault + (('f, 'g) StagedStepGenerator \<times> SearchStatus)" where
  "StagedStepGeneratorFactory_createGenerator ops facs status entry state data =
     newStagedStepGenerator ops status facs entry state data"

definition stagedOps ::
  "('f, 'g) GeneratorOps \<Rightarrow> ('f list, ('f, 'g) StagedStepGenerator) GeneratorOps" where
  "stagedOps ops =
     \<lparr>createGenerator = StagedStepGeneratorFactory_createGenerator ops,
      getStep = StagedStepGenerator_getStep ops\<rparr>"

subsection \<open>The collaborators of the search strategy\<close>

text \<open>
  \<open>Solver\<close>, \<open>Model\<close>, \<open>BeliefTree\<close> and \<open>BeliefNode\<close> are not among the sources; what
  \<open>extendSequence\<close> calls on them is a parameter. \<open>'t\<close> is the state behind the solver:
  the belief tree with its statistics. The two update entry points take their arguments
  in the order of the call sites: \<open>updateEstimate(node, value delta, visit delta)\<close> and
  \<open>updateImmediate(node, action, observation, reward, visit delta)\<close>. \<open>heuristic\<close> is the
  strategy's member \<open>heuristic_\<close>.
\<close>

record 't SolverOps =
  Model_isTerminal :: "State \<Rightarrow> bool"
  getDepth :: "'t \<Rightarrow> BeliefNodePtr \<Rightarrow> int"
  getHistoricalData :: "'t \<Rightarrow> BeliefNodePtr \<Rightarrow> HistoricalData"
  BeliefTree_createOrGetChild :: "'t \<Rightarrow> BeliefNodePtr \<Rightarrow> Action \<Rightarrow> Observation \<Rightarrow> BeliefNodePtr \<times> 't"
  updateEstimate :: "'t \<Rightarrow> BeliefNodePtr \<Rightarrow> real \<Rightarrow> int \<Rightarrow> 't"
  updateImmediate :: "'t \<Rightarrow> BeliefNodePtr \<Rightarrow> Action \<Rightarrow> Observation \<Rightarrow> real \<Rightarrow> int \<Rightarrow> 't"
  heuristic :: "HistoryEntry \<Rightarrow> State \<Rightarrow> HistoricalData \<Rightarrow> real"

text \<open>The calls \<open>extendSequence\<close> makes that reach beyond its own variables, in the order
  it makes them. The arguments stand in the order of the call site.\<close>

datatype Call =
    Call_updateEstimate BeliefNodePtr real int
  | Call_createOrGetChild BeliefNodePtr Action Observation
  | Call_updateImmediate BeliefNodePtr Action Observation real int
  | Call_createOrGetInfo State
  | Call_addEntry State
  | Call_heuristic HistoryEntry State HistoricalData
  | Call_show_message string

text \<open>Everything \<open>extendSequence\<close> may change: the tree behind the solver, the state pool,
  the history sequence, and the record of the calls made.\<close>

record 't World =
  tree :: 't
  statePool :: "State list"
  sequence :: "HistoryEntry list"
  trace :: "Call list"

definition called :: "Call \<Rightarrow> 't World \<Rightarrow> 't World" where
  "called c w = w\<lparr>trace := trace w @ [c]\<rparr>"

subsection \<open>\<open>BasicSearchStrategy::extendSequence\<close>\<close>

text \<open>Lines 107 to 130: from a step with the non-null action \<open>a\<close> to the next belief
  node. \<open>result.observation\<close> and \<open>result.nextState\<close> are dereferenced without a check.\<close>

definition takeStep ::
  "'t SolverOps \<Rightarrow> bool \<Rightarrow> BeliefNodePtr \<Rightarrow> StepResult \<Rightarrow> Action \<Rightarrow> 't World
     \<Rightarrow> fault + (BeliefNodePtr \<times> 't World)" where
  "takeStep solver isFirst currentNode result a w =
     (let w1 = (if isFirst then w
                else called (Call_updateEstimate currentNode 0 1)
                       (w\<lparr>tree := updateEstimate solver (tree w) currentNode 0 1\<rparr>))
      in case observation result of
           None \<Rightarrow> Inl NullDereference
         | Some obs \<Rightarrow>
             (let w2 = w1\<lparr>sequence := updateLast
                          (\<lambda>e. e\<lparr>immediateReward := reward result,
                                 entryAction := Some a,
                                 entryTransitionParameters := transitionParameters result,
                                 entryObservation := Some obs\<rparr>) (sequence w1)\<rparr>;
                  (nextNode, t3) = BeliefTree_createOrGetChild solver (tree w2) currentNode a obs;
                  w3 = called (Call_createOrGetChild currentNode a obs) (w2\<lparr>tree := t3\<rparr>);
                  w4 = called (Call_updateImmediate currentNode a obs (reward result) 1)
                         (w3\<lparr>tree := updateImmediate solver (tree w3) currentNode a obs
                                        (reward result) 1\<rparr>)
              in case nextState result of
                   None \<Rightarrow> Inl NullDereference
                 | Some s \<Rightarrow>
                     (let (nextStateInfo, pool') = createOrGetInfo (statePool w4) s;
                          w5 = called (Call_createOrGetInfo s) (w4\<lparr>statePool := pool'\<rparr>);
                          w6 = called (Call_addEntry nextStateInfo)
                                 (w5\<lparr>sequence := addEntry (sequence w5) nextStateInfo\<rparr>);
                          w7 = w6\<lparr>sequence := updateLast (\<lambda>e. registerNode e nextNode)
                                                (sequence w6)\<rparr>
                      in Inr (nextNode, w7))))"

text \<open>How the \<open>while (true)\<close> loop is left: by \<open>return status\<close> inside it, or by \<open>break\<close>.\<close>

datatype LoopExit = Returned | Broke

text \<open>The loop. It need not end (nothing bounds the depth of the nodes the tree hands
  out), so it runs on fuel: \<open>None\<close> is a loop that has not ended within \<open>fuel\<close>
  iterations.\<close>

fun extendLoop ::
  "nat \<Rightarrow> 't SolverOps \<Rightarrow> ('f, 'g) GeneratorOps \<Rightarrow> int \<Rightarrow> 'g \<Rightarrow> bool \<Rightarrow> BeliefNodePtr
     \<Rightarrow> SearchStatus \<Rightarrow> 't World
     \<Rightarrow> (fault + (LoopExit \<times> SearchStatus \<times> BeliefNodePtr \<times> 't World)) option" where
  "extendLoop 0 solver gops maximumDepth gen isFirst currentNode status w = None"
| "extendLoop (Suc fuel) solver gops maximumDepth gen isFirst currentNode status w =
     (if getDepth solver (tree w) currentNode \<ge> maximumDepth
      then Some (Inr (Broke, OUT_OF_STEPS, currentNode, w))
      else (case getStep gops gen (last (sequence w)) (getState (last (sequence w)))
                   (getHistoricalData solver (tree w) currentNode) status of
              Inl e \<Rightarrow> Some (Inl e)
            | Inr (result, gen', status') \<Rightarrow>
                (case action result of
                   None \<Rightarrow> Some (Inr (Broke, status', currentNode, w))
                 | Some a \<Rightarrow>
                     (case takeStep solver isFirst currentNode result a w of
                        Inl e \<Rightarrow> Some (Inl e)
                      | Inr (nextNode, w') \<Rightarrow>
                          (if isTerminal result
                           then Some (Inr (Returned, FINISHED, nextNode, w'))
                           else extendLoop fuel solver gops maximumDepth gen' False nextNode
                                  status' w')))))"

text \<open>Lines 138 to 156, after a \<open>break\<close>.\<close>

definition afterLoop ::
  "'t SolverOps \<Rightarrow> SearchStatus \<Rightarrow> BeliefNodePtr \<Rightarrow> 't World \<Rightarrow> SearchStatus \<times> 't World" where
  "afterLoop solver status currentNode w =
     (if status = OUT_OF_STEPS
      then (let currentEntry = last (sequence w);
                h = heuristic solver currentEntry (getState currentEntry)
                      (getHistoricalData solver (tree w) currentNode);
                w1 = called (Call_heuristic currentEntry (getState currentEntry)
                               (getHistoricalData solver (tree w) currentNode))
                       (w\<lparr>sequence := updateLast (\<lambda>e. e\<lparr>immediateReward := h\<rparr>) (sequence w)\<rparr>);
                r = immediateReward (last (sequence w1));
                w2 = called (Call_updateEstimate currentNode r 0)
                       (w1\<lparr>tree := updateEstimate solver (tree w1) currentNode r 0\<rparr>)
            in (FINISHED, w2))
      else if status = FINISHED then (status, w)
      else if status = UNINITIALIZED
      then (status, called (Call_show_message ''ERROR: Search algorithm could not initialize.'') w)
      else if status = INITIAL
      then (status,
            called (Call_show_message ''ERROR: Search algorithm initialized but did not run.'') w)
      else if status = ERROR
      then (status, called (Call_show_message ''ERROR: Error in search algorithm!'') w)
      else (status, called (Call_show_message ''ERROR: Invalid search status.'') w))"

text \<open>From the loop's exit to the value of the call.\<close>

definition finish ::
  "'t SolverOps \<Rightarrow> (fault + (LoopExit \<times> SearchStatus \<times> BeliefNodePtr \<times> 't World)) option
     \<Rightarrow> (fault + (SearchStatus \<times> 't World)) option" where
  "finish solver r =
     (case r of
        None \<Rightarrow> None
      | Some (Inl e) \<Rightarrow> Some (Inl e)
      | Some (Inr (Returned, status, currentNode, w)) \<Rightarrow> Some (Inr (status, w))
      | Some (Inr (Broke, status, currentNode, w)) \<Rightarrow>
          Some (Inr (afterLoop solver status currentNode w)))"

text \<open>\<open>SearchStatus BasicSearchStrategy::extendSequence(HistorySequence *sequence, long
  maximumDepth)\<close>. \<open>getLastEntry\<close> of an empty sequence and a last entry that is not
  registered with a belief node are faults.\<close>

definition extendSequence ::
  "nat \<Rightarrow> 't SolverOps \<Rightarrow> ('f, 'g) GeneratorOps \<Rightarrow> 'f \<Rightarrow> 't World \<Rightarrow> int
     \<Rightarrow> (fault + (SearchStatus \<times> 't World)) option" where
  "extendSequence fuel solver gops factory w maximumDepth =
     (if sequence w = [] then Some (Inl EmptySequence)
      else (let currentEntry = last (sequence w)
            in case getAssociatedBeliefNode currentEntry of
                 None \<Rightarrow> Some (Inl NullDereference)
               | Some currentNode \<Rightarrow>
                   (case createGenerator gops factory UNINITIALIZED currentEntry
                           (getState currentEntry)
                           (getHistoricalData solver (tree w) currentNode) of
                      Inl e \<Rightarrow> Some (Inl e)
                    | Inr (gen, status) \<Rightarrow>
                        (if status = UNINITIALIZED then Some (Inr (status, w))
                         else if Model_isTerminal solver (getState currentEntry)
                         then Some (Inr (ERROR,
                                 called (Call_show_message
                                   ''WARNING: Attempted to continue sequence from a terminal state.'') w))
                         else if getAction currentEntry \<noteq> None
                         then Some (Inr (ERROR,
                                 called (Call_show_message
                                   ''ERROR: The last in the sequence already has an action!?'') w))
                         else finish solver
                                (extendLoop fuel solver gops maximumDepth gen True currentNode
                                   status w)))))"

subsection \<open>A solver and a generator to run\<close>

text \<open>
  A solver whose belief nodes form a chain: node \<open>n\<close> has depth \<open>n\<close> and one child,
  \<open>n + 1\<close>, whatever the action and the observation. The state behind it is the ledger
  of the statistic updates it received: node, value delta, visit delta. State \<open>99\<close> is
  the terminal one and the heuristic values every frontier at \<open>7\<close>.
\<close>

definition chainSolver :: "((BeliefNodePtr \<times> real \<times> int) list) SolverOps" where
  "chainSolver =
     \<lparr>Model_isTerminal = (\<lambda>s. s = 99),
      getDepth = (\<lambda>t n. int n),
      getHistoricalData = (\<lambda>t n. n),
      BeliefTree_createOrGetChild = (\<lambda>t n a obs. (Suc n, t)),
      updateEstimate = (\<lambda>t n q v. t @ [(n, q, v)]),
      updateImmediate = (\<lambda>t n a obs q v. t @ [(n, q, v)]),
      heuristic = (\<lambda>e s d. 7)\<rparr>"

text \<open>A generator that plays a script: each \<open>getStep\<close> hands out the next result of its
  list and, once the list is used up, a result with a null action. It leaves the status
  as it is; its factory sets the status to \<open>INITIAL\<close>.\<close>

definition nullStep :: StepResult where
  "nullStep =
     \<lparr>action = None, reward = 0, observation = None, transitionParameters = None,
      nextState = None, isTerminal = False\<rparr>"

definition stepOf :: "Action \<Rightarrow> real \<Rightarrow> Observation \<Rightarrow> State \<Rightarrow> StepResult" where
  "stepOf a r obs s =
     \<lparr>action = Some a, reward = r, observation = Some obs, transitionParameters = None,
      nextState = Some s, isTerminal = False\<rparr>"

definition scriptOps :: "(StepResult list, StepResult list) GeneratorOps" where
  "scriptOps =
     \<lparr>createGenerator = (\<lambda>f status entry state data. Inr (f, INITIAL)),
      getStep = (\<lambda>g entry state data status.
                   case g of [] \<Rightarrow> Inr (nullStep, [], status)
                           | r # rest \<Rightarrow> Inr (r, rest, status))\<rparr>"

definition rootEntry :: HistoryEntry where
  "rootEntry = registerNode (newHistoryEntry 0) 0"

definition startWorld :: "((BeliefNodePtr \<times> real \<times> int) list) World" where
  "startWorld = \<lparr>tree = [], statePool = [0], sequence = [rootEntry], trace = []\<rparr>"

subsection \<open>The shape of the record of calls\<close>

text \<open>The calls of one pass through lines 107 to 130, for a step taken at \<open>node\<close> with
  action \<open>a\<close>, observation \<open>obs\<close>, reward \<open>r\<close> and next state \<open>s\<close>: the continuation
  credit unless the step is the first of its call, then the child, the immediate update
  and the new entry.\<close>

definition stepCalls ::
  "bool \<Rightarrow> BeliefNodePtr \<times> Action \<times> Observation \<times> real \<times> State \<Rightarrow> Call list" where
  "stepCalls isFirst x =
     (case x of (node, a, obs, r, s) \<Rightarrow>
        (if isFirst then [] else [Call_updateEstimate node 0 1]) @
        [Call_createOrGetChild node a obs, Call_updateImmediate node a obs r 1,
         Call_createOrGetInfo s, Call_addEntry s])"

text \<open>The calls of a run of steps: only the head of the run may be a first step.\<close>

fun stepsTrace ::
  "bool \<Rightarrow> (BeliefNodePtr \<times> Action \<times> Observation \<times> real \<times> State) list \<Rightarrow> Call list" where
  "stepsTrace isFirst [] = []"
| "stepsTrace isFirst (x # xs) = stepCalls isFirst x @ stepsTrace False xs"

text \<open>What a call may add after its steps: nothing, the heuristic with its value-only
  update, or one message.\<close>

fun closingCalls :: "Call list \<Rightarrow> bool" where
  "closingCalls [] = True"
| "closingCalls [Call_heuristic e s d, Call_updateEstimate node h deltaNVisits] =
     (deltaNVisits = 0)"
| "closingCalls [Call_show_message m] = True"
| "closingCalls cs = False"

text \<open>The status a call returned and the calls it recorded.\<close>

definition statusOf :: "(fault + (SearchStatus \<times> 't World)) option \<Rightarrow> SearchStatus option" where
  "statusOf r = (case r of Some (Inr (status, w)) \<Rightarrow> Some status | _ \<Rightarrow> None)"

definition callsOf :: "(fault + (SearchStatus \<times> 't World)) option \<Rightarrow> Call list" where
  "callsOf r = (case r of Some (Inr (status, w)) \<Rightarrow> trace w | _ \<Rightarrow> [])"


section \<open>Properties of the action node\<close>

lemma wrapLong_in_range: "LONG_MIN \<le> x \<Longrightarrow> x \<le> LONG_MAX \<Longrightarrow> wrapLong x = x"
  by (simp add: wrapLong_def LONG_MIN_def LONG_MAX_def)

lemma wrapLong_add: "wrapLong (wrapLong a + b) = wrapLong (a + b)"
proof -
  have "(((a + 2 ^ 63) mod 2 ^ 64 - 2 ^ 63) + b + 2 ^ 63) mod (2 ^ 64 :: int) =
        ((a + 2 ^ 63) mod 2 ^ 64 + b) mod 2 ^ 64"
    by (simp add: algebra_simps)
  also have "\<dots> = (a + 2 ^ 63 + b) mod 2 ^ 64"
    by (rule mod_add_left_eq)
  finally show ?thesis
    by (simp add: wrapLong_def algebra_simps)
qed

lemma updateQValue_fields:
  "nParticles (updateQValue n increase) = nParticles n"
  "totalQValue (updateQValue n increase) = totalQValue n + increase"
  "meanQValue (updateQValue n increase) =
     (if nParticles n > 0 then (totalQValue n + increase) / of_int (nParticles n) else 0)"
  "obsMap (updateQValue n increase) = obsMap n"
  by (simp_all add: updateQValue_def Let_def)

lemma updateQValueN_fields:
  "nParticles (updateQValueN n increase d) = wrapLong (nParticles n + d)"
  "totalQValue (updateQValueN n increase d) = totalQValue n + increase"
  "meanQValue (updateQValueN n increase d) =
     (if wrapLong (nParticles n + d) > 0
      then (totalQValue n + increase) / of_int (wrapLong (nParticles n + d)) else 0)"
  "obsMap (updateQValueN n increase d) = obsMap n"
  by (simp_all add: updateQValueN_def updateQValue_fields)

lemma applyQCall_consistent: "meanConsistent (applyQCall n c)"
  by (cases c) (simp_all add: meanConsistent_def updateQValue_fields updateQValueN_fields)

lemma runQCalls_snoc: "runQCalls n (cs @ [c]) = applyQCall (runQCalls n cs) c"
  by (simp add: runQCalls_def)

lemma runQCalls_consistent: "cs \<noteq> [] \<Longrightarrow> meanConsistent (runQCalls n cs)"
  by (cases cs rule: rev_cases) (simp_all add: runQCalls_snoc applyQCall_consistent)

text \<open>
  C1. After a call of either overload of \<open>updateQValue\<close> the mean is the total divided by
  the particle count when the count is positive, and \<open>0\<close> when it is zero (and when it is
  negative); the two-argument overload adjusts the count first, so that its mean is taken
  over the adjusted count (the sum of the count and \<open>deltaNParticles\<close>, which is that sum
  itself whenever it is in the range of a \<open>long\<close>). Hence, whatever the node and whatever the list of calls, the
  mean is consistent after every call of the list, that is, after each of its non-empty
  prefixes.
\<close>

theorem updateQValue_mean_consistent:
  "meanConsistent (updateQValue n increase) \<and>
   meanConsistent (updateQValueN n increase deltaNParticles) \<and>
   nParticles (updateQValueN n increase deltaNParticles) =
     wrapLong (nParticles n + deltaNParticles) \<and>
   meanQValue (updateQValueN n increase deltaNParticles) =
     (if wrapLong (nParticles n + deltaNParticles) > 0
      then (totalQValue n + increase) / of_int (wrapLong (nParticles n + deltaNParticles))
      else 0) \<and>
   (LONG_MIN \<le> nParticles n + deltaNParticles \<and> nParticles n + deltaNParticles \<le> LONG_MAX
      \<longrightarrow> nParticles (updateQValueN n increase deltaNParticles) =
            nParticles n + deltaNParticles \<and>
          meanQValue (updateQValueN n increase deltaNParticles) =
            (if nParticles n + deltaNParticles > 0
             then (totalQValue n + increase) / of_int (nParticles n + deltaNParticles)
             else 0)) \<and>
   (\<forall>k. 0 < k \<and> k \<le> length cs \<longrightarrow> meanConsistent (runQCalls n (take k cs)))"
proof -
  have "meanConsistent (runQCalls n (take k cs))" if "0 < k" "k \<le> length cs" for k
  proof -
    from that have "take k cs \<noteq> []" by auto
    then show ?thesis by (rule runQCalls_consistent)
  qed
  moreover have "meanConsistent (updateQValue n increase)"
    using applyQCall_consistent [of n "Update increase"] by simp
  moreover have "meanConsistent (updateQValueN n increase deltaNParticles)"
    using applyQCall_consistent [of n "UpdateN increase deltaNParticles"] by simp
  ultimately show ?thesis by (simp add: updateQValueN_fields wrapLong_in_range)
qed

theorem updateQValue_mean_consistent_witness:
  "getNParticles (runQCalls (newActionNode None) [UpdateN 3 2, Update 1]) = 2 \<and>
   getTotalQValue (runQCalls (newActionNode None) [UpdateN 3 2, Update 1]) = 4 \<and>
   getMeanQValue (runQCalls (newActionNode None) [UpdateN 3 2, Update 1]) = 2 \<and>
   meanConsistent (runQCalls (newActionNode None) [UpdateN 3 2, Update 1]) \<and>
   meanConsistent (updateQValueN (newActionNode None) 5 0)"
  using updateQValue_mean_consistent [of "newActionNode None" 5 0 "[UpdateN 3 2, Update 1]"]
  by (simp add: runQCalls_def getNParticles_def getTotalQValue_def getMeanQValue_def
      updateQValue_fields updateQValueN_fields newActionNode_def meanConsistent_def
      wrapLong_def LONG_MIN_def LONG_MAX_def)

lemma runQCalls_nParticles:
  "LONG_MIN \<le> nParticles n \<Longrightarrow> nParticles n \<le> LONG_MAX \<Longrightarrow>
   nParticles (runQCalls n cs) = wrapLong (nParticles n + sum_list (map deltaOf cs))"
proof (induction cs rule: rev_induct)
  case Nil
  then show ?case by (simp add: runQCalls_def wrapLong_in_range)
next
  case (snoc c cs)
  then show ?case
    by (cases c)
       (simp_all add: runQCalls_snoc updateQValue_fields updateQValueN_fields wrapLong_add
          add.assoc)
qed

lemma sum_list_deltas_nonneg:
  "\<forall>c \<in> set cs. 0 \<le> deltaOf c \<Longrightarrow> 0 \<le> sum_list (map deltaOf cs)"
  by (induction cs) auto

lemma sum_list_deltas_take:
  assumes "\<forall>c \<in> set cs. 0 \<le> deltaOf c"
  shows "0 \<le> sum_list (map deltaOf (take k cs))"
    and "sum_list (map deltaOf (take k cs)) \<le> sum_list (map deltaOf cs)"
proof -
  have t: "\<forall>c \<in> set (take k cs). 0 \<le> deltaOf c" and d: "\<forall>c \<in> set (drop k cs). 0 \<le> deltaOf c"
    using assms by (auto dest: in_set_takeD in_set_dropD)
  show "0 \<le> sum_list (map deltaOf (take k cs))"
    by (rule sum_list_deltas_nonneg [OF t])
  have "sum_list (map deltaOf cs) =
      sum_list (map deltaOf (take k cs)) + sum_list (map deltaOf (drop k cs))"
    by (metis append_take_drop_id map_append sum_list_append)
  with sum_list_deltas_nonneg [OF d]
  show "sum_list (map deltaOf (take k cs)) \<le> sum_list (map deltaOf cs)" by simp
qed

text \<open>
  C8, as stated, fails: nothing in \<open>updateQValue\<close> keeps the count from going below zero.
  On a fresh node the call \<open>updateQValue(0, -1)\<close> leaves \<open>getNParticles() = -1\<close>, and the
  calls \<open>updateQValue(0, LONG_MAX)\<close> and \<open>updateQValue(0, 1)\<close> leave it at \<open>LONG_MIN\<close>.
\<close>

theorem getNParticles_negative_counterexample:
  "getNParticles (updateQValueN (newActionNode None) 0 (- 1)) = - 1 \<and>
   getNParticles (runQCalls (newActionNode None) [UpdateN 0 LONG_MAX, UpdateN 0 1]) = LONG_MIN \<and>
   LONG_MIN < 0"
  by (simp add: getNParticles_def runQCalls_def updateQValueN_fields newActionNode_def
      wrapLong_def LONG_MIN_def LONG_MAX_def)

text \<open>
  C8, amended. After a list of \<open>updateQValue\<close> calls the particle count is its value
  before them plus the sum of the \<open>deltaNParticles\<close> passed (the one-argument overload
  passes none), brought into the range of a 64-bit \<open>long\<close>. It is non-negative after every
  call of the list, and is that sum itself, when it starts non-negative, no call passes a
  negative \<open>deltaNParticles\<close>, and the count with all the deltas added does not exceed
  \<open>LONG_MAX\<close>.
\<close>

theorem getNParticles_sum_of_deltas:
  "(LONG_MIN \<le> getNParticles n \<and> getNParticles n \<le> LONG_MAX \<longrightarrow>
      getNParticles (runQCalls n cs) =
        wrapLong (getNParticles n + sum_list (map deltaOf cs))) \<and>
   (0 \<le> getNParticles n \<and> (\<forall>c \<in> set cs. 0 \<le> deltaOf c) \<and>
    getNParticles n + sum_list (map deltaOf cs) \<le> LONG_MAX \<longrightarrow>
      (\<forall>k. k \<le> length cs \<longrightarrow>
         getNParticles (runQCalls n (take k cs)) =
           getNParticles n + sum_list (map deltaOf (take k cs)) \<and>
         0 \<le> getNParticles (runQCalls n (take k cs))))"
proof -
  have wrapped: "getNParticles (runQCalls n cs) =
        wrapLong (getNParticles n + sum_list (map deltaOf cs))"
    if "LONG_MIN \<le> getNParticles n" "getNParticles n \<le> LONG_MAX"
    using that by (simp add: getNParticles_def runQCalls_nParticles)
  have plain: "getNParticles (runQCalls n (take k cs)) =
           getNParticles n + sum_list (map deltaOf (take k cs)) \<and>
         0 \<le> getNParticles (runQCalls n (take k cs))"
    if nonneg: "0 \<le> getNParticles n" and deltas: "\<forall>c \<in> set cs. 0 \<le> deltaOf c"
      and bound: "getNParticles n + sum_list (map deltaOf cs) \<le> LONG_MAX" for k
  proof -
    have lo: "0 \<le> getNParticles n + sum_list (map deltaOf (take k cs))"
      using nonneg sum_list_deltas_take(1) [OF deltas, of k] by simp
    have hi: "getNParticles n + sum_list (map deltaOf (take k cs)) \<le> LONG_MAX"
      using bound sum_list_deltas_take(2) [OF deltas, of k] by simp
    have start: "LONG_MIN \<le> nParticles n" "nParticles n \<le> LONG_MAX"
      using nonneg bound sum_list_deltas_nonneg [OF deltas]
      by (simp_all add: getNParticles_def LONG_MIN_def)
    have "getNParticles (runQCalls n (take k cs)) =
        wrapLong (getNParticles n + sum_list (map deltaOf (take k cs)))"
      using start by (simp add: getNParticles_def runQCalls_nParticles)
    also have "\<dots> = getNParticles n + sum_list (map deltaOf (take k cs))"
    proof (rule wrapLong_in_range)
      show "LONG_MIN \<le> getNParticles n + sum_list (map deltaOf (take k cs))"
        using lo by (simp add: LONG_MIN_def)
      show "getNParticles n + sum_list (map deltaOf (take k cs)) \<le> LONG_MAX"
        by (rule hi)
    qed
    finally show ?thesis using lo by simp
  qed
  from wrapped plain show ?thesis by blast
qed

theorem getNParticles_sum_of_deltas_witness:
  "getNParticles (runQCalls (newActionNode None) [UpdateN 3 2, Update 1, UpdateN 0 0]) = 2 \<and>
   getNParticles (runQCalls (newActionNode None) [UpdateN 3 2, Update 1]) = 2 \<and>
   getNParticles (runQCalls (newActionNode None) [UpdateN 0 LONG_MAX, UpdateN 0 1]) =
     wrapLong (LONG_MAX + 1)"
  using getNParticles_sum_of_deltas
      [of "newActionNode None" "[UpdateN 3 2, Update 1, UpdateN 0 0]"]
    getNParticles_sum_of_deltas
      [of "newActionNode None" "[UpdateN 0 LONG_MAX, UpdateN 0 1]"]
  by (simp add: getNParticles_def newActionNode_def runQCalls_def updateQValue_fields
      updateQValueN_fields wrapLong_def LONG_MIN_def LONG_MAX_def)

lemma createOrGetChild_cases:
  assumes "createOrGetChild n obs = Inr ((child, added), n')"
  obtains m where "obsMap n = Some m" "getBelief m obs = None" "added"
      "child = Some (length (children m))"
      "n' = n\<lparr>obsMap := Some (m\<lparr>children := children m @ [(obs, length (children m))]\<rparr>)\<rparr>"
  | m where "obsMap n = Some m" "getBelief m obs = child" "child \<noteq> None" "\<not> added" "n' = n"
  using assms
  by (auto simp: createOrGetChild_def getChild_def createBelief_def
      split: option.splits if_splits)

lemma createOrGetChild_again:
  assumes "createOrGetChild n obs = Inr ((child, added), n')"
  shows "createOrGetChild n' obs = Inr ((child, False), n') \<and> child \<noteq> None"
  using assms
proof (cases rule: createOrGetChild_cases)
  case (1 m)
  then show ?thesis
    by (simp add: createOrGetChild_def getChild_def getBelief_def map_add_Some_iff)
next
  case (2 m)
  then show ?thesis
    by (auto simp: createOrGetChild_def getChild_def)
qed

lemma createOrGetChild_observations:
  assumes "createOrGetChild n obs = Inr ((child, added), n')"
  shows "childObservations n' =
           (if added then childObservations n @ [obs] else childObservations n)
    \<and> (added \<longleftrightarrow> obs \<notin> set (childObservations n))"
  using assms
proof (cases rule: createOrGetChild_cases)
  case (1 m)
  then show ?thesis
    by (simp add: childObservations_def getBelief_def map_of_eq_None_iff)
next
  case (2 m)
  then obtain c where "map_of (children m) obs = Some c"
    by (auto simp: getBelief_def)
  then have "obs \<in> fst ` set (children m)"
    by (metis map_of_eq_None_iff option.distinct(1))
  with 2 show ?thesis
    by (simp add: childObservations_def)
qed

lemma createOrGetChild_keeps_distinct:
  assumes "createOrGetChild n obs = Inr ((child, added), n')" "distinct (childObservations n)"
  shows "distinct (childObservations n')"
  using createOrGetChild_observations [OF assms(1)] assms(2) by auto

lemma createOrGetChild_total:
  assumes "obsMap n = Some m"
  shows "createOrGetChild n obs =
     (if obs \<in> set (childObservations n) then Inr ((getBelief m obs, False), n)
      else Inr ((Some (length (children m)), True),
                n\<lparr>obsMap := Some (m\<lparr>children := children m @ [(obs, length (children m))]\<rparr>)\<rparr>))"
    and "obs \<in> set (childObservations n) \<longrightarrow> getBelief m obs \<noteq> None"
proof -
  have iff: "getBelief m obs = None \<longleftrightarrow> obs \<notin> set (childObservations n)"
    using assms by (simp add: getBelief_def childObservations_def map_of_eq_None_iff)
  then show "obs \<in> set (childObservations n) \<longrightarrow> getBelief m obs \<noteq> None"
    by simp
  show "createOrGetChild n obs =
     (if obs \<in> set (childObservations n) then Inr ((getBelief m obs, False), n)
      else Inr ((Some (length (children m)), True),
                n\<lparr>obsMap := Some (m\<lparr>children := children m @ [(obs, length (children m))]\<rparr>)\<rparr>))"
    using assms iff by (simp add: createOrGetChild_def getChild_def createBelief_def)
qed

lemma createOrGetChild_returns:
  assumes "obsMap n = Some m"
  shows "\<exists>child added n' m'. createOrGetChild n obs = Inr ((Some child, added), n') \<and>
           obsMap n' = Some m'"
proof (cases "obs \<in> set (childObservations n)")
  case True
  with createOrGetChild_total [OF assms, of obs] obtain c where "getBelief m obs = Some c"
    by auto
  with True createOrGetChild_total(1) [OF assms, of obs] assms show ?thesis by auto
next
  case False
  with createOrGetChild_total(1) [OF assms, of obs] show ?thesis by auto
qed

lemma createAll_children:
  "obsMap n = Some m \<Longrightarrow>
     \<exists>n'. createAll n obss = Inr n' \<and>
       set (childObservations n') = set (childObservations n) \<union> set obss \<and>
       (distinct (childObservations n) \<longrightarrow> distinct (childObservations n'))"
proof (induction obss arbitrary: n m)
  case Nil
  then show ?case by simp
next
  case (Cons obs rest)
  from createOrGetChild_returns [OF Cons.prems, of obs] obtain child added n1 m1 where
    c: "createOrGetChild n obs = Inr ((Some child, added), n1)" and m1: "obsMap n1 = Some m1"
    by blast
  from createOrGetChild_observations [OF c] have
    obs1: "set (childObservations n1) = set (childObservations n) \<union> {obs}"
    by auto
  from Cons.IH [OF m1] obtain n' where
    r: "createAll n1 rest = Inr n'"
       "set (childObservations n') = set (childObservations n1) \<union> set rest"
       "distinct (childObservations n1) \<longrightarrow> distinct (childObservations n')"
    by blast
  have "createAll n (obs # rest) = Inr n'"
    using c r(1) by simp
  moreover have "set (childObservations n') = set (childObservations n) \<union> set (obs # rest)"
    using r(2) obs1 by auto
  moreover have "distinct (childObservations n) \<longrightarrow> distinct (childObservations n')"
    using r(3) createOrGetChild_keeps_distinct [OF c] by blast
  ultimately show ?case by blast
qed

text \<open>
  C7. On a node without a mapping \<open>createOrGetChild\<close> dereferences null. On a node with
  a mapping it returns for every observation: the child the mapping holds, with the
  flag \<open>false\<close> and nothing changed, when the observation has one, and otherwise a new
  child, with the flag \<open>true\<close>, added to the mapping. Whenever it has returned a child
  for an observation, a second call with the same observation returns the same, non-null
  child with the flag \<open>false\<close> and changes nothing. So a node that starts with an empty
  mapping and is asked for any list of observations ends with exactly one child for
  each distinct observation of the list.
\<close>

theorem createOrGetChild_idempotent:
  "(obsMap n = None \<longrightarrow> createOrGetChild n obs = Inl NullDereference) \<and>
   (obsMap n = Some m \<longrightarrow>
      createOrGetChild n obs =
        (if obs \<in> set (childObservations n) then Inr ((getBelief m obs, False), n)
         else Inr ((Some (length (children m)), True),
                   n\<lparr>obsMap := Some (m\<lparr>children := children m @
                                                   [(obs, length (children m))]\<rparr>)\<rparr>)) \<and>
      (obs \<in> set (childObservations n) \<longrightarrow> getBelief m obs \<noteq> None)) \<and>
   (createOrGetChild n obs = Inr ((child, added), n') \<longrightarrow>
      createOrGetChild n' obs = Inr ((child, False), n') \<and> child \<noteq> None \<and>
      (added \<longleftrightarrow> obs \<notin> set (childObservations n)) \<and>
      childObservations n' =
        (if added then childObservations n @ [obs] else childObservations n)) \<and>
   (\<exists>n''. createAll (newActionNode (Some \<lparr>children = []\<rparr>)) obss = Inr n'' \<and>
      distinct (childObservations n'') \<and> set (childObservations n'') = set obss)"
proof -
  have fresh: "obsMap (newActionNode (Some \<lparr>children = []\<rparr>)) = Some \<lparr>children = []\<rparr>"
    "childObservations (newActionNode (Some \<lparr>children = []\<rparr>)) = []"
    by (simp_all add: childObservations_def newActionNode_def)
  have "\<exists>n''. createAll (newActionNode (Some \<lparr>children = []\<rparr>)) obss = Inr n'' \<and>
      distinct (childObservations n'') \<and> set (childObservations n'') = set obss"
    using createAll_children [OF fresh(1), of obss] fresh(2) by auto
  moreover have "obsMap n = None \<longrightarrow> createOrGetChild n obs = Inl NullDereference"
    by (simp add: createOrGetChild_def getChild_def)
  ultimately show ?thesis
    using createOrGetChild_again [of n obs child added n']
      createOrGetChild_observations [of n obs child added n']
      createOrGetChild_total [of n m obs]
    by blast
qed

theorem createOrGetChild_idempotent_witness:
  "createOrGetChild (newActionNode (Some \<lparr>children = []\<rparr>)) 5 =
     Inr ((Some 0, True), newActionNode (Some \<lparr>children = [(5, 0)]\<rparr>)) \<and>
   createOrGetChild (newActionNode (Some \<lparr>children = [(5, 0)]\<rparr>)) 5 =
     Inr ((Some 0, False), newActionNode (Some \<lparr>children = [(5, 0)]\<rparr>)) \<and>
   createOrGetChild (newActionNode (Some \<lparr>children = [(5, 0), (6, 1)]\<rparr>)) 7 =
     Inr ((Some 2, True), newActionNode (Some \<lparr>children = [(5, 0), (6, 1), (7, 2)]\<rparr>)) \<and>
   createOrGetChild (newActionNode None) 5 = Inl NullDereference \<and>
   createAll (newActionNode (Some \<lparr>children = []\<rparr>)) [5, 6, 5, 7] =
     Inr (newActionNode (Some \<lparr>children = [(5, 0), (6, 1), (7, 2)]\<rparr>)) \<and>
   distinct (childObservations (newActionNode (Some \<lparr>children = [(5, 0), (6, 1), (7, 2)]\<rparr>)))"
proof -
  have first: "createOrGetChild (newActionNode (Some \<lparr>children = []\<rparr>)) 5 =
     Inr ((Some 0, True), newActionNode (Some \<lparr>children = [(5, 0)]\<rparr>))"
    by (simp add: createOrGetChild_def getChild_def getBelief_def createBelief_def
        newActionNode_def)
  have all: "createAll (newActionNode (Some \<lparr>children = []\<rparr>)) [5, 6, 5, 7] =
     Inr (newActionNode (Some \<lparr>children = [(5, 0), (6, 1), (7, 2)]\<rparr>))"
    by (simp add: createOrGetChild_def getChild_def getBelief_def createBelief_def
        newActionNode_def)
  show ?thesis
    using first all
      createOrGetChild_idempotent [of "newActionNode (Some \<lparr>children = []\<rparr>)" 5
        "\<lparr>children = []\<rparr>" "Some 0" True
        "newActionNode (Some \<lparr>children = [(5, 0)]\<rparr>)" "[5, 6, 5, 7]"]
      createOrGetChild_idempotent [of "newActionNode (Some \<lparr>children = [(5, 0), (6, 1)]\<rparr>)" 7
        "\<lparr>children = [(5, 0), (6, 1)]\<rparr>"]
      createOrGetChild_idempotent [of "newActionNode None" 5]
    by (simp add: newActionNode_def childObservations_def)
qed

section \<open>Properties of the action mapping\<close>

text \<open>
  C10. When \<open>getEntry(action)\<close> returns an entry, the default \<open>update\<close> returns exactly what
  that entry's own \<open>update(deltaNVisits, deltaTotalQ)\<close> returns, and the mapping holds the
  updated entry; when \<open>getEntry(action)\<close> returns null, \<open>update\<close> dereferences the null
  pointer.
\<close>

theorem ActionMapping_update_delegates:
  "(getEntry ops m a = Some e \<longrightarrow>
      update ops m a deltaNVisits deltaTotalQ =
        Inr (fst (entryUpdate ops e deltaNVisits deltaTotalQ),
             putEntry ops m a (snd (entryUpdate ops e deltaNVisits deltaTotalQ)))) \<and>
   (getEntry ops m a = None \<longrightarrow> update ops m a deltaNVisits deltaTotalQ = Inl NullDereference)"
  by (simp add: update_def split: prod.splits)

theorem ActionMapping_update_delegates_witness:
  "map_sum id fst (update tableOps [3 \<mapsto> (1, 2)] 3 1 5) = Inr True \<and>
   map_sum id fst (update tableOps [3 \<mapsto> (1, 2)] 3 1 0) = Inr False \<and>
   update tableOps [3 \<mapsto> (1, 2)] 4 1 5 = Inl NullDereference"
  using ActionMapping_update_delegates [of tableOps "[3 \<mapsto> (1, 2)]" 3 "(1, 2)" 1 5]
    ActionMapping_update_delegates [of tableOps "[3 \<mapsto> (1, 2)]" 3 "(1, 2)" 1 0]
    ActionMapping_update_delegates [of tableOps "[3 \<mapsto> (1, 2)]" 4 "(1, 2)" 1 5]
  by (simp add: tableOps_def)

section \<open>Properties of the staged step generator\<close>

text \<open>
  C9. The constructor dereferences the first factory without a check: on an empty list
  it dereferences the end iterator, and no branch handles that. On a list \<open>f # rest\<close> it
  is exactly the first factory's \<open>createGenerator\<close>: the generator that factory makes
  becomes the active one, and the cursor is left on the second factory (the list from
  the second factory on).
\<close>

theorem StagedStepGenerator_construction:
  "newStagedStepGenerator ops status [] entry state data = Inl EndIteratorDereference \<and>
   newStagedStepGenerator ops status (f # rest) entry state data =
     (case createGenerator ops f status entry state data of
        Inl e \<Rightarrow> Inl e
      | Inr (g, status') \<Rightarrow>
          Inr (\<lparr>factories = f # rest, iterator = rest, generator = Some g\<rparr>, status'))"
  by (simp add: newStagedStepGenerator_def split: sum.splits)

lemma StagedStepGenerator_getStep_unfold:
  assumes "generator sg = Some g0" "getStep ops g0 entry state data status = Inr (r, g', status1)"
  shows "StagedStepGenerator_getStep ops sg entry state data status =
     (if action r \<noteq> None then Inr (r, sg\<lparr>generator := Some g'\<rparr>, status1)
      else if status1 = FINISHED \<or> iterator sg = []
      then Inr (r, sg\<lparr>generator := None\<rparr>, status1)
      else (case createGenerator ops (hd (iterator sg)) status1 entry state data of
              Inl e \<Rightarrow> Inl e
            | Inr (g2, status2) \<Rightarrow>
                StagedStepGenerator_getStep ops
                  (sg\<lparr>generator := Some g2, iterator := tl (iterator sg)\<rparr>)
                  entry state data status2))"
  using assms
  by (cases sg)
     (simp add: StagedStepGenerator_getStep_def stagedLoop.simps [of ops entry state data r]
        split: sum.splits)

text \<open>
  C4. Over the stages \<open>[A, B]\<close>, where \<open>A\<close>'s generator yields the step \<open>rA\<close> and then a null
  action (leaving a status other than \<open>FINISHED\<close>), the first \<open>getStep\<close> returns \<open>rA\<close> and
  the second returns what \<open>B\<close>'s fresh generator yields first, \<open>rB\<close>. In general, when the
  active generator's result has an action, \<open>getStep\<close> returns it and the cursor stays;
  when the action is null and the status is \<open>FINISHED\<close> or no stage remains, it clears the
  active generator and returns the null-action result; and when the action is null, the
  status is not \<open>FINISHED\<close> and a stage remains, it moves the cursor on, makes that stage's
  generator the active one and tries again.
\<close>

theorem StagedStepGenerator_getStep_stages:
  "(createGenerator ops A st0 e0 s0 d0 = Inr (gA, st1) \<and>
    getStep ops gA e1 s1 d1 st1 = Inr (rA, gA1, st2) \<and> action rA \<noteq> None \<and>
    getStep ops gA1 e2 s2 d2 st2 = Inr (rN, gA2, st3) \<and> action rN = None \<and> st3 \<noteq> FINISHED \<and>
    createGenerator ops B st3 e2 s2 d2 = Inr (gB, st4) \<and>
    getStep ops gB e2 s2 d2 st4 = Inr (rB, gB1, st5)
    \<longrightarrow>
    newStagedStepGenerator ops st0 [A, B] e0 s0 d0 =
      Inr (\<lparr>factories = [A, B], iterator = [B], generator = Some gA\<rparr>, st1) \<and>
    StagedStepGenerator_getStep ops \<lparr>factories = [A, B], iterator = [B], generator = Some gA\<rparr>
        e1 s1 d1 st1 =
      Inr (rA, \<lparr>factories = [A, B], iterator = [B], generator = Some gA1\<rparr>, st2) \<and>
    StagedStepGenerator_getStep ops \<lparr>factories = [A, B], iterator = [B], generator = Some gA1\<rparr>
        e2 s2 d2 st2 =
      Inr (rB, \<lparr>factories = [A, B], iterator = [],
                generator = (if action rB = None then None else Some gB1)\<rparr>, st5))
   \<and>
   (generator sg = Some g0 \<and> getStep ops g0 entry state data status = Inr (r, g', status1)
    \<longrightarrow>
    StagedStepGenerator_getStep ops sg entry state data status =
     (if action r \<noteq> None then Inr (r, sg\<lparr>generator := Some g'\<rparr>, status1)
      else if status1 = FINISHED \<or> iterator sg = []
      then Inr (r, sg\<lparr>generator := None\<rparr>, status1)
      else (case createGenerator ops (hd (iterator sg)) status1 entry state data of
              Inl e \<Rightarrow> Inl e
            | Inr (g2, status2) \<Rightarrow>
                StagedStepGenerator_getStep ops
                  (sg\<lparr>generator := Some g2, iterator := tl (iterator sg)\<rparr>)
                  entry state data status2)))"
proof (intro conjI impI)
  assume h: "generator sg = Some g0 \<and> getStep ops g0 entry state data status = Inr (r, g', status1)"
  then show "StagedStepGenerator_getStep ops sg entry state data status =
     (if action r \<noteq> None then Inr (r, sg\<lparr>generator := Some g'\<rparr>, status1)
      else if status1 = FINISHED \<or> iterator sg = []
      then Inr (r, sg\<lparr>generator := None\<rparr>, status1)
      else (case createGenerator ops (hd (iterator sg)) status1 entry state data of
              Inl e \<Rightarrow> Inl e
            | Inr (g2, status2) \<Rightarrow>
                StagedStepGenerator_getStep ops
                  (sg\<lparr>generator := Some g2, iterator := tl (iterator sg)\<rparr>)
                  entry state data status2))"
    using StagedStepGenerator_getStep_unfold [of sg g0 ops entry state data status r g' status1]
    by blast
next
  assume h: "createGenerator ops A st0 e0 s0 d0 = Inr (gA, st1) \<and>
    getStep ops gA e1 s1 d1 st1 = Inr (rA, gA1, st2) \<and> action rA \<noteq> None \<and>
    getStep ops gA1 e2 s2 d2 st2 = Inr (rN, gA2, st3) \<and> action rN = None \<and> st3 \<noteq> FINISHED \<and>
    createGenerator ops B st3 e2 s2 d2 = Inr (gB, st4) \<and>
    getStep ops gB e2 s2 d2 st4 = Inr (rB, gB1, st5)"
  then show "newStagedStepGenerator ops st0 [A, B] e0 s0 d0 =
      Inr (\<lparr>factories = [A, B], iterator = [B], generator = Some gA\<rparr>, st1)"
    by (simp add: newStagedStepGenerator_def)
  from h show "StagedStepGenerator_getStep ops \<lparr>factories = [A, B], iterator = [B], generator = Some gA\<rparr>
        e1 s1 d1 st1 =
      Inr (rA, \<lparr>factories = [A, B], iterator = [B], generator = Some gA1\<rparr>, st2)"
    using StagedStepGenerator_getStep_unfold
      [of "\<lparr>factories = [A, B], iterator = [B], generator = Some gA\<rparr>" gA ops e1 s1 d1 st1 rA gA1 st2]
    by simp
  from h have "StagedStepGenerator_getStep ops \<lparr>factories = [A, B], iterator = [B], generator = Some gA1\<rparr>
        e2 s2 d2 st2 =
     StagedStepGenerator_getStep ops \<lparr>factories = [A, B], iterator = [], generator = Some gB\<rparr>
        e2 s2 d2 st4"
    using StagedStepGenerator_getStep_unfold
      [of "\<lparr>factories = [A, B], iterator = [B], generator = Some gA1\<rparr>" gA1 ops e2 s2 d2 st2 rN gA2 st3]
    by simp
  also from h have "\<dots> = Inr (rB, \<lparr>factories = [A, B], iterator = [],
                generator = (if action rB = None then None else Some gB1)\<rparr>, st5)"
    using StagedStepGenerator_getStep_unfold
      [of "\<lparr>factories = [A, B], iterator = [], generator = Some gB\<rparr>" gB ops e2 s2 d2 st4 rB gB1 st5]
    by simp
  finally show "StagedStepGenerator_getStep ops \<lparr>factories = [A, B], iterator = [B], generator = Some gA1\<rparr>
        e2 s2 d2 st2 =
      Inr (rB, \<lparr>factories = [A, B], iterator = [],
                generator = (if action rB = None then None else Some gB1)\<rparr>, st5)" .
qed

theorem StagedStepGenerator_getStep_stages_witness:
  "newStagedStepGenerator scriptOps UNINITIALIZED
      [[stepOf 1 2 3 4], [stepOf 5 6 7 8, stepOf 9 10 11 12]] rootEntry 0 0 =
     Inr (\<lparr>factories = [[stepOf 1 2 3 4], [stepOf 5 6 7 8, stepOf 9 10 11 12]],
           iterator = [[stepOf 5 6 7 8, stepOf 9 10 11 12]],
           generator = Some [stepOf 1 2 3 4]\<rparr>, INITIAL) \<and>
   StagedStepGenerator_getStep scriptOps
      \<lparr>factories = [[stepOf 1 2 3 4], [stepOf 5 6 7 8, stepOf 9 10 11 12]],
           iterator = [[stepOf 5 6 7 8, stepOf 9 10 11 12]],
           generator = Some [stepOf 1 2 3 4]\<rparr> rootEntry 0 0 INITIAL =
     Inr (stepOf 1 2 3 4,
          \<lparr>factories = [[stepOf 1 2 3 4], [stepOf 5 6 7 8, stepOf 9 10 11 12]],
           iterator = [[stepOf 5 6 7 8, stepOf 9 10 11 12]],
           generator = Some []\<rparr>, INITIAL) \<and>
   StagedStepGenerator_getStep scriptOps
      \<lparr>factories = [[stepOf 1 2 3 4], [stepOf 5 6 7 8, stepOf 9 10 11 12]],
           iterator = [[stepOf 5 6 7 8, stepOf 9 10 11 12]],
           generator = Some []\<rparr> rootEntry 0 0 INITIAL =
     Inr (stepOf 5 6 7 8,
          \<lparr>factories = [[stepOf 1 2 3 4], [stepOf 5 6 7 8, stepOf 9 10 11 12]],
           iterator = [],
           generator = Some [stepOf 9 10 11 12]\<rparr>, INITIAL)"
  using StagedStepGenerator_getStep_stages [of scriptOps "[stepOf 1 2 3 4]" UNINITIALIZED rootEntry 0 0 "[stepOf 1 2 3 4]" INITIAL
      rootEntry 0 0 "stepOf 1 2 3 4" "[]" INITIAL rootEntry 0 0 nullStep "[]" INITIAL
      "[stepOf 5 6 7 8, stepOf 9 10 11 12]" "[stepOf 5 6 7 8, stepOf 9 10 11 12]" INITIAL
      "stepOf 5 6 7 8" "[stepOf 9 10 11 12]" INITIAL
      "\<lparr>factories = [[stepOf 1 2 3 4], [stepOf 5 6 7 8, stepOf 9 10 11 12]],
        iterator = [[stepOf 5 6 7 8, stepOf 9 10 11 12]], generator = Some []\<rparr>"
      "[]" rootEntry 0 0 INITIAL nullStep "[]" INITIAL]
  by (simp add: scriptOps_def stepOf_def nullStep_def)

section \<open>Properties of \<open>extendSequence\<close>\<close>

lemmas run_defs =
  extendSequence_def startWorld_def rootEntry_def registerNode_def newHistoryEntry_def
  getAssociatedBeliefNode_def getState_def getAction_def chainSolver_def scriptOps_def stepOf_def
  nullStep_def finish_def afterLoop_def takeStep_def called_def updateLast_def addEntry_def
  createOrGetInfo_def Let_def

lemma two_step_run:
  "extendSequence (Suc (Suc (Suc 0))) chainSolver scriptOps [stepOf 1 2 3 4, stepOf 5 6 7 8] startWorld 2 =
   Some (Inr (FINISHED,
        \<lparr>tree = [(0, 2, 1), (1, 0, 1), (1, 6, 1), (2, 7, 0)],
           statePool = [0, 4, 8],
           sequence =
             [\<lparr>stateInfo = 0, immediateReward = 2, entryAction = Some 1,
                 entryTransitionParameters = None,
                 entryObservation = Some 3, associatedBeliefNode = Some 0\<rparr>,
              \<lparr>stateInfo = 4, immediateReward = 6, entryAction = Some 5,
                 entryTransitionParameters = None,
                 entryObservation = Some 7, associatedBeliefNode = Some 1\<rparr>,
              \<lparr>stateInfo = 8, immediateReward = 7, entryAction = None,
                 entryTransitionParameters = None, entryObservation = None,
                 associatedBeliefNode = Some 2\<rparr>],
           trace =
             [Call_createOrGetChild 0 1 3, Call_updateImmediate 0 1 3 2 1,
              Call_createOrGetInfo 4, Call_addEntry 4,
              Call_updateEstimate 1 0 1, Call_createOrGetChild 1 5 7,
              Call_updateImmediate 1 5 7 6 1, Call_createOrGetInfo 8,
              Call_addEntry 8,
              Call_heuristic
               \<lparr>stateInfo = 8, immediateReward = 0, entryAction = None,
                  entryTransitionParameters = None, entryObservation = None,
                  associatedBeliefNode = Some 2\<rparr>
               8 2,
              Call_updateEstimate 2 7 0]\<rparr>))"
  by (simp add: run_defs)

lemma extendSequence_enters_loop:
  assumes "sequence w \<noteq> []"
    "getAssociatedBeliefNode (last (sequence w)) = Some node"
    "createGenerator gops factory UNINITIALIZED (last (sequence w)) (getState (last (sequence w)))
       (getHistoricalData solver (tree w) node) = Inr (gen, status)"
    "status \<noteq> UNINITIALIZED"
    "\<not> Model_isTerminal solver (getState (last (sequence w)))"
    "getAction (last (sequence w)) = None"
  shows "extendSequence fuel solver gops factory w maximumDepth =
    finish solver (extendLoop fuel solver gops maximumDepth gen True node status w)"
  using assms by (simp add: extendSequence_def)

lemma takeStep_trace:
  assumes "takeStep solver isFirst node r a w = Inr (node', w')"
  shows "\<exists>obs s. observation r = Some obs \<and> nextState r = Some s \<and>
           trace w' = trace w @ stepCalls isFirst (node, a, obs, reward r, s)"
  using assms
  by (auto simp: takeStep_def called_def stepCalls_def Let_def createOrGetInfo_def
      split: option.splits prod.splits if_splits)

lemma extendLoop_trace:
  "extendLoop fuel solver gops maximumDepth gen isFirst node status w =
     Some (Inr (ex, status', node', w')) \<Longrightarrow>
   \<exists>steps. trace w' = trace w @ stepsTrace isFirst steps"
proof (induction fuel arbitrary: gen isFirst node status w)
  case 0
  then show ?case by simp
next
  case (Suc fuel)
  show ?case
  proof (cases "getDepth solver (tree w) node \<ge> maximumDepth")
    case True
    with Suc.prems have "w' = w" by simp
    then have "trace w' = trace w @ stepsTrace isFirst []" by simp
    then show ?thesis by blast
  next
    case deep: False
    then obtain r gen' st1 where
      gs: "getStep gops gen (last (sequence w)) (getState (last (sequence w)))
             (getHistoricalData solver (tree w) node) status = Inr (r, gen', st1)"
      using Suc.prems by (auto split: sum.splits)
    show ?thesis
    proof (cases "action r")
      case None
      with Suc.prems deep gs have "w' = w" by simp
      then have "trace w' = trace w @ stepsTrace isFirst []" by simp
      then show ?thesis by blast
    next
      case (Some a)
      then obtain n1 w1 where ts: "takeStep solver isFirst node r a w = Inr (n1, w1)"
        using Suc.prems deep gs by (auto split: sum.splits)
      from takeStep_trace [OF ts] obtain obs s where
        t1: "trace w1 = trace w @ stepCalls isFirst (node, a, obs, reward r, s)" by blast
      show ?thesis
      proof (cases "isTerminal r")
        case True
        with Suc.prems deep gs Some ts have "w' = w1" by simp
        with t1 have "trace w' = trace w @ stepsTrace isFirst [(node, a, obs, reward r, s)]"
          by simp
        then show ?thesis by blast
      next
        case False
        with Suc.prems deep gs Some ts have
          "extendLoop fuel solver gops maximumDepth gen' False n1 st1 w1 =
             Some (Inr (ex, status', node', w'))" by simp
        from Suc.IH [OF this] obtain steps where
          "trace w' = trace w1 @ stepsTrace False steps" by blast
        with t1 have "trace w' = trace w @ stepsTrace isFirst ((node, a, obs, reward r, s) # steps)"
          by simp
        then show ?thesis by blast
      qed
    qed
  qed
qed

lemma afterLoop_trace:
  "afterLoop solver status node w = (status', w') \<Longrightarrow>
   \<exists>tail. trace w' = trace w @ tail \<and> closingCalls tail"
  by (auto simp: afterLoop_def called_def Let_def split: if_splits)

text \<open>
  C2. Let the generator be constructed with a status other than \<open>UNINITIALIZED\<close>, the
  frontier state not be terminal, the frontier entry carry no action, and the frontier
  belief node be at depth \<open>maximumDepth\<close> (or deeper). Then, with fuel for one test of the
  loop, \<open>extendSequence\<close> returns \<open>FINISHED\<close>; it has called the heuristic once, on the
  frontier entry, stored the value as that entry's immediate reward, and made one call
  \<open>updateEstimate(node, value, 0)\<close> on the frontier belief node; nothing else changed.
\<close>

theorem extendSequence_depth_cutoff:
  "sequence w \<noteq> [] \<and>
   getAssociatedBeliefNode (last (sequence w)) = Some node \<and>
   createGenerator gops factory UNINITIALIZED (last (sequence w)) (getState (last (sequence w)))
       (getHistoricalData solver (tree w) node) = Inr (gen, status) \<and>
   status \<noteq> UNINITIALIZED \<and>
   \<not> Model_isTerminal solver (getState (last (sequence w))) \<and>
   getAction (last (sequence w)) = None \<and>
   maximumDepth \<le> getDepth solver (tree w) node
   \<longrightarrow>
   extendSequence (Suc fuel) solver gops factory w maximumDepth =
     Some (Inr (FINISHED,
       \<lparr>tree = updateEstimate solver (tree w) node
                 (heuristic solver (last (sequence w)) (getState (last (sequence w)))
                    (getHistoricalData solver (tree w) node)) 0,
        statePool = statePool w,
        sequence = butlast (sequence w) @
          [(last (sequence w))\<lparr>immediateReward :=
              heuristic solver (last (sequence w)) (getState (last (sequence w)))
                (getHistoricalData solver (tree w) node)\<rparr>],
        trace = trace w @
          [Call_heuristic (last (sequence w)) (getState (last (sequence w)))
             (getHistoricalData solver (tree w) node),
           Call_updateEstimate node
             (heuristic solver (last (sequence w)) (getState (last (sequence w)))
                (getHistoricalData solver (tree w) node)) 0]\<rparr>))"
proof (intro impI, elim conjE)
  assume h: "sequence w \<noteq> []"
    "getAssociatedBeliefNode (last (sequence w)) = Some node"
    "createGenerator gops factory UNINITIALIZED (last (sequence w)) (getState (last (sequence w)))
       (getHistoricalData solver (tree w) node) = Inr (gen, status)"
    "status \<noteq> UNINITIALIZED"
    "\<not> Model_isTerminal solver (getState (last (sequence w)))"
    "getAction (last (sequence w)) = None"
  assume deep: "maximumDepth \<le> getDepth solver (tree w) node"
  have ul: "updateLast f (sequence w) = butlast (sequence w) @ [f (last (sequence w))]" for f
    using h(1) by (simp add: updateLast_def split: list.splits)
  define hv where "hv = heuristic solver (last (sequence w)) (getState (last (sequence w)))
                    (getHistoricalData solver (tree w) node)"
  have "extendSequence (Suc fuel) solver gops factory w maximumDepth =
      Some (Inr (afterLoop solver OUT_OF_STEPS node w))"
    using deep by (simp add: extendSequence_enters_loop [OF h] finish_def)
  also have "afterLoop solver OUT_OF_STEPS node w =
      (FINISHED, w\<lparr>tree := updateEstimate solver (tree w) node hv 0,
         sequence := butlast (sequence w) @ [(last (sequence w))\<lparr>immediateReward := hv\<rparr>],
         trace := trace w @
           [Call_heuristic (last (sequence w)) (getState (last (sequence w)))
              (getHistoricalData solver (tree w) node),
            Call_updateEstimate node hv 0]\<rparr>)"
    by (simp add: afterLoop_def called_def Let_def ul hv_def)
  also have "w\<lparr>tree := updateEstimate solver (tree w) node hv 0,
         sequence := butlast (sequence w) @ [(last (sequence w))\<lparr>immediateReward := hv\<rparr>],
         trace := trace w @
           [Call_heuristic (last (sequence w)) (getState (last (sequence w)))
              (getHistoricalData solver (tree w) node),
            Call_updateEstimate node hv 0]\<rparr> =
       \<lparr>tree = updateEstimate solver (tree w) node hv 0,
        statePool = statePool w,
        sequence = butlast (sequence w) @ [(last (sequence w))\<lparr>immediateReward := hv\<rparr>],
        trace = trace w @
          [Call_heuristic (last (sequence w)) (getState (last (sequence w)))
             (getHistoricalData solver (tree w) node),
           Call_updateEstimate node hv 0]\<rparr>"
    by (cases w) simp
  finally show "extendSequence (Suc fuel) solver gops factory w maximumDepth =
     Some (Inr (FINISHED,
       \<lparr>tree = updateEstimate solver (tree w) node
                 (heuristic solver (last (sequence w)) (getState (last (sequence w)))
                    (getHistoricalData solver (tree w) node)) 0,
        statePool = statePool w,
        sequence = butlast (sequence w) @
          [(last (sequence w))\<lparr>immediateReward :=
              heuristic solver (last (sequence w)) (getState (last (sequence w)))
                (getHistoricalData solver (tree w) node)\<rparr>],
        trace = trace w @
          [Call_heuristic (last (sequence w)) (getState (last (sequence w)))
             (getHistoricalData solver (tree w) node),
           Call_updateEstimate node
             (heuristic solver (last (sequence w)) (getState (last (sequence w)))
                (getHistoricalData solver (tree w) node)) 0]\<rparr>))"
    by (simp add: hv_def)
qed

theorem extendSequence_depth_cutoff_witness:
  "extendSequence (Suc 0) chainSolver scriptOps [] startWorld 0 =
   Some (Inr (FINISHED,
        \<lparr>tree = [(0, 7, 0)], statePool = [0],
           sequence = [rootEntry\<lparr>immediateReward := 7\<rparr>],
           trace = [Call_heuristic rootEntry 0 0, Call_updateEstimate 0 7 0]\<rparr>))"
  using extendSequence_depth_cutoff [of startWorld 0 scriptOps "[]" chainSolver "[]" INITIAL 0 0]
  by (simp add: startWorld_def rootEntry_def registerNode_def newHistoryEntry_def
     getAssociatedBeliefNode_def getState_def getAction_def chainSolver_def scriptOps_def)

text \<open>
  C5. Let the generator be constructed with a status other than \<open>UNINITIALIZED\<close>. If the
  frontier state is terminal, or the frontier entry already carries an action,
  \<open>extendSequence\<close> returns \<open>ERROR\<close>, whatever the fuel: the tree, the state pool and the
  sequence are as before, and the only call recorded is the message.
\<close>

theorem extendSequence_precondition_error:
  "sequence w \<noteq> [] \<and>
   getAssociatedBeliefNode (last (sequence w)) = Some node \<and>
   createGenerator gops factory UNINITIALIZED (last (sequence w)) (getState (last (sequence w)))
       (getHistoricalData solver (tree w) node) = Inr (gen, status) \<and>
   status \<noteq> UNINITIALIZED \<and>
   (Model_isTerminal solver (getState (last (sequence w))) \<or> getAction (last (sequence w)) \<noteq> None)
   \<longrightarrow>
   extendSequence fuel solver gops factory w maximumDepth =
     Some (Inr (ERROR,
       \<lparr>tree = tree w, statePool = statePool w, sequence = sequence w,
        trace = trace w @
          [Call_show_message
             (if Model_isTerminal solver (getState (last (sequence w)))
              then ''WARNING: Attempted to continue sequence from a terminal state.''
              else ''ERROR: The last in the sequence already has an action!?'')]\<rparr>))"
  by (cases w) (auto simp: extendSequence_def called_def)

theorem extendSequence_precondition_error_witness:
  "extendSequence 0 chainSolver scriptOps [stepOf 1 2 3 4]
     \<lparr>tree = [], statePool = [99], sequence = [registerNode (newHistoryEntry 99) 0], trace = []\<rparr> 3 =
   Some (Inr (ERROR,
     \<lparr>tree = [], statePool = [99], sequence = [registerNode (newHistoryEntry 99) 0],
      trace = [Call_show_message
                 ''WARNING: Attempted to continue sequence from a terminal state.'']\<rparr>)) \<and>
   extendSequence 0 chainSolver scriptOps [stepOf 1 2 3 4]
     \<lparr>tree = [], statePool = [0], sequence = [rootEntry\<lparr>entryAction := Some 1\<rparr>], trace = []\<rparr> 3 =
   Some (Inr (ERROR,
     \<lparr>tree = [], statePool = [0], sequence = [rootEntry\<lparr>entryAction := Some 1\<rparr>],
      trace = [Call_show_message ''ERROR: The last in the sequence already has an action!?'']\<rparr>))"
  using extendSequence_precondition_error [of "\<lparr>tree = [], statePool = [99], sequence = [registerNode (newHistoryEntry 99) 0], trace = []\<rparr>"
       0 scriptOps "[stepOf 1 2 3 4]" chainSolver "[stepOf 1 2 3 4]" INITIAL 0 3]
    extendSequence_precondition_error [of "\<lparr>tree = [], statePool = [0], sequence = [rootEntry\<lparr>entryAction := Some 1\<rparr>], trace = []\<rparr>"
       0 scriptOps "[stepOf 1 2 3 4]" chainSolver "[stepOf 1 2 3 4]" INITIAL 0 3]
  by (simp add: rootEntry_def registerNode_def newHistoryEntry_def
     getAssociatedBeliefNode_def getState_def getAction_def chainSolver_def scriptOps_def)

text \<open>
  C6, as stated, fails: the status returned after a null action is the one the generator
  left. A staged generator whose two stages decline at once and leave the status at
  \<open>INITIAL\<close> makes \<open>extendSequence\<close> return \<open>INITIAL\<close>, with the message of that branch.
\<close>

theorem extendSequence_null_action_counterexample:
  "statusOf (extendSequence (Suc 0) chainSolver (stagedOps scriptOps) [[], []] startWorld 2) =
     Some INITIAL \<and>
   callsOf (extendSequence (Suc 0) chainSolver (stagedOps scriptOps) [[], []] startWorld 2) =
     [Call_show_message ''ERROR: Search algorithm initialized but did not run.'']"
  by (simp add: run_defs callsOf_def statusOf_def stagedOps_def
      StagedStepGeneratorFactory_createGenerator_def newStagedStepGenerator_def
      StagedStepGenerator_getStep_def stagedLoop.simps)

lemma afterLoop_outcome:
  assumes "sequence w \<noteq> []"
  shows "afterLoop solver status' node w =
        (if status' = OUT_OF_STEPS
         then (FINISHED,
               \<lparr>tree = updateEstimate solver (tree w) node
                   (heuristic solver (last (sequence w)) (getState (last (sequence w)))
                      (getHistoricalData solver (tree w) node)) 0,
                statePool = statePool w,
                sequence = butlast (sequence w) @
                  [(last (sequence w))\<lparr>immediateReward :=
                      heuristic solver (last (sequence w)) (getState (last (sequence w)))
                        (getHistoricalData solver (tree w) node)\<rparr>],
                trace = trace w @
                  [Call_heuristic (last (sequence w)) (getState (last (sequence w)))
                     (getHistoricalData solver (tree w) node),
                   Call_updateEstimate node
                     (heuristic solver (last (sequence w)) (getState (last (sequence w)))
                        (getHistoricalData solver (tree w) node)) 0]\<rparr>)
         else if status' = FINISHED then (FINISHED, w)
         else (status',
               \<lparr>tree = tree w, statePool = statePool w, sequence = sequence w,
                trace = trace w @
                  [Call_show_message
                     (if status' = UNINITIALIZED
                      then ''ERROR: Search algorithm could not initialize.''
                      else if status' = INITIAL
                      then ''ERROR: Search algorithm initialized but did not run.''
                      else if status' = ERROR
                      then ''ERROR: Error in search algorithm!''
                      else ''ERROR: Invalid search status.'')]\<rparr>))"
proof -
  have ul: "updateLast f (sequence w) = butlast (sequence w) @ [f (last (sequence w))]" for f
    using assms by (simp add: updateLast_def split: list.splits)
  show ?thesis
    by (cases w) (use ul in \<open>simp add: afterLoop_def called_def Let_def\<close>)
qed

text \<open>
  C6, amended. Whenever, below the depth cutoff, the generator returns a null action,
  the loop is left by \<open>break\<close> with the status the generator left and nothing changed,
  whichever iteration it is. What the call then returns is decided by that status. For
  \<open>OUT_OF_STEPS\<close> the heuristic is evaluated, stored in the frontier entry and passed to
  \<open>updateEstimate\<close> with a visit delta of \<open>0\<close>, and the call returns \<open>FINISHED\<close>. For
  \<open>FINISHED\<close> nothing further is done and the call returns \<open>FINISHED\<close>. For every other
  status the message of its branch is shown and the call returns that status itself.
  A call whose preconditions hold returns what the loop, started on the frontier with
  the status the factory left, ends with.
\<close>

theorem extendSequence_null_action_status:
  "(sequence w \<noteq> [] \<and>
    getDepth solver (tree w) node < maximumDepth \<and>
    getStep gops gen (last (sequence w)) (getState (last (sequence w)))
      (getHistoricalData solver (tree w) node) status = Inr (r, gen', status') \<and>
    action r = None
    \<longrightarrow>
    extendLoop (Suc fuel) solver gops maximumDepth gen isFirst node status w =
      Some (Inr (Broke, status', node, w)) \<and>
    finish solver (extendLoop (Suc fuel) solver gops maximumDepth gen isFirst node status w) =
      Some (Inr
        (if status' = OUT_OF_STEPS
         then (FINISHED,
               \<lparr>tree = updateEstimate solver (tree w) node
                   (heuristic solver (last (sequence w)) (getState (last (sequence w)))
                      (getHistoricalData solver (tree w) node)) 0,
                statePool = statePool w,
                sequence = butlast (sequence w) @
                  [(last (sequence w))\<lparr>immediateReward :=
                      heuristic solver (last (sequence w)) (getState (last (sequence w)))
                        (getHistoricalData solver (tree w) node)\<rparr>],
                trace = trace w @
                  [Call_heuristic (last (sequence w)) (getState (last (sequence w)))
                     (getHistoricalData solver (tree w) node),
                   Call_updateEstimate node
                     (heuristic solver (last (sequence w)) (getState (last (sequence w)))
                        (getHistoricalData solver (tree w) node)) 0]\<rparr>)
         else if status' = FINISHED then (FINISHED, w)
         else (status',
               \<lparr>tree = tree w, statePool = statePool w, sequence = sequence w,
                trace = trace w @
                  [Call_show_message
                     (if status' = UNINITIALIZED
                      then ''ERROR: Search algorithm could not initialize.''
                      else if status' = INITIAL
                      then ''ERROR: Search algorithm initialized but did not run.''
                      else if status' = ERROR
                      then ''ERROR: Error in search algorithm!''
                      else ''ERROR: Invalid search status.'')]\<rparr>)))) \<and>
   (sequence w \<noteq> [] \<and>
    getAssociatedBeliefNode (last (sequence w)) = Some node \<and>
    createGenerator gops factory UNINITIALIZED (last (sequence w))
      (getState (last (sequence w))) (getHistoricalData solver (tree w) node) =
      Inr (gen, status) \<and>
    status \<noteq> UNINITIALIZED \<and>
    \<not> Model_isTerminal solver (getState (last (sequence w))) \<and>
    getAction (last (sequence w)) = None
    \<longrightarrow>
    extendSequence fuel' solver gops factory w maximumDepth =
      finish solver (extendLoop fuel' solver gops maximumDepth gen True node status w))"
proof (intro conjI impI)
  assume h: "sequence w \<noteq> [] \<and>
    getDepth solver (tree w) node < maximumDepth \<and>
    getStep gops gen (last (sequence w)) (getState (last (sequence w)))
      (getHistoricalData solver (tree w) node) status = Inr (r, gen', status') \<and>
    action r = None"
  then show brk: "extendLoop (Suc fuel) solver gops maximumDepth gen isFirst node status w =
      Some (Inr (Broke, status', node, w))"
    by simp
  from h have "sequence w \<noteq> []" by simp
  from afterLoop_outcome [OF this, of solver status' node]
  show "finish solver (extendLoop (Suc fuel) solver gops maximumDepth gen isFirst node status w) =
      Some (Inr
        (if status' = OUT_OF_STEPS
         then (FINISHED,
               \<lparr>tree = updateEstimate solver (tree w) node
                   (heuristic solver (last (sequence w)) (getState (last (sequence w)))
                      (getHistoricalData solver (tree w) node)) 0,
                statePool = statePool w,
                sequence = butlast (sequence w) @
                  [(last (sequence w))\<lparr>immediateReward :=
                      heuristic solver (last (sequence w)) (getState (last (sequence w)))
                        (getHistoricalData solver (tree w) node)\<rparr>],
                trace = trace w @
                  [Call_heuristic (last (sequence w)) (getState (last (sequence w)))
                     (getHistoricalData solver (tree w) node),
                   Call_updateEstimate node
                     (heuristic solver (last (sequence w)) (getState (last (sequence w)))
                        (getHistoricalData solver (tree w) node)) 0]\<rparr>)
         else if status' = FINISHED then (FINISHED, w)
         else (status',
               \<lparr>tree = tree w, statePool = statePool w, sequence = sequence w,
                trace = trace w @
                  [Call_show_message
                     (if status' = UNINITIALIZED
                      then ''ERROR: Search algorithm could not initialize.''
                      else if status' = INITIAL
                      then ''ERROR: Search algorithm initialized but did not run.''
                      else if status' = ERROR
                      then ''ERROR: Error in search algorithm!''
                      else ''ERROR: Invalid search status.'')]\<rparr>)))"
    unfolding brk by (simp add: finish_def)
next
  assume "sequence w \<noteq> [] \<and>
    getAssociatedBeliefNode (last (sequence w)) = Some node \<and>
    createGenerator gops factory UNINITIALIZED (last (sequence w))
      (getState (last (sequence w))) (getHistoricalData solver (tree w) node) =
      Inr (gen, status) \<and>
    status \<noteq> UNINITIALIZED \<and>
    \<not> Model_isTerminal solver (getState (last (sequence w))) \<and>
    getAction (last (sequence w)) = None"
  then show "extendSequence fuel' solver gops factory w maximumDepth =
      finish solver (extendLoop fuel' solver gops maximumDepth gen True node status w)"
    using extendSequence_enters_loop [of w node gops factory solver gen status fuel' maximumDepth]
    by blast
qed

theorem extendSequence_null_action_status_witness:
  "finish chainSolver (extendLoop (Suc 0) chainSolver scriptOps 2 [] True 0 OUT_OF_STEPS startWorld) =
     Some (Inr (FINISHED,
       \<lparr>tree = [(0, 7, 0)], statePool = [0],
        sequence = [rootEntry\<lparr>immediateReward := 7\<rparr>],
        trace = [Call_heuristic rootEntry 0 0, Call_updateEstimate 0 7 0]\<rparr>)) \<and>
   finish chainSolver (extendLoop (Suc 0) chainSolver scriptOps 2 [] True 0 FINISHED startWorld) =
     Some (Inr (FINISHED, startWorld)) \<and>
   finish chainSolver (extendLoop (Suc 0) chainSolver scriptOps 2 [] True 0 ERROR startWorld) =
     Some (Inr (ERROR,
       \<lparr>tree = [], statePool = [0], sequence = [rootEntry],
        trace = [Call_show_message ''ERROR: Error in search algorithm!'']\<rparr>)) \<and>
   extendSequence (Suc 0) chainSolver scriptOps [] startWorld 2 =
     Some (Inr (INITIAL,
       \<lparr>tree = [], statePool = [0], sequence = [rootEntry],
        trace = [Call_show_message
                   ''ERROR: Search algorithm initialized but did not run.'']\<rparr>))"
  using
    extendSequence_null_action_status [where w = startWorld and solver = chainSolver
      and node = 0 and maximumDepth = 2 and gops = scriptOps and gen = "[]"
      and status = OUT_OF_STEPS and r = nullStep and gen' = "[]" and status' = OUT_OF_STEPS
      and fuel = 0 and isFirst = True]
    extendSequence_null_action_status [where w = startWorld and solver = chainSolver
      and node = 0 and maximumDepth = 2 and gops = scriptOps and gen = "[]"
      and status = FINISHED and r = nullStep and gen' = "[]" and status' = FINISHED
      and fuel = 0 and isFirst = True]
    extendSequence_null_action_status [where w = startWorld and solver = chainSolver
      and node = 0 and maximumDepth = 2 and gops = scriptOps and gen = "[]"
      and status = ERROR and r = nullStep and gen' = "[]" and status' = ERROR
      and fuel = 0 and isFirst = True]
    extendSequence_null_action_status [where w = startWorld and solver = chainSolver
      and node = 0 and maximumDepth = 2 and gops = scriptOps and gen = "[]"
      and status = INITIAL and r = nullStep and gen' = "[]" and status' = INITIAL
      and fuel = 0 and isFirst = True and factory = "[]" and fuel' = "Suc 0"]
  by (simp add: startWorld_def rootEntry_def registerNode_def newHistoryEntry_def
      getAssociatedBeliefNode_def getState_def getAction_def chainSolver_def scriptOps_def
      nullStep_def)

lemma extendSequence_trace:
  assumes "extendSequence fuel solver gops factory w maximumDepth = Some (Inr (status', w'))"
  shows "\<exists>steps tail. trace w' = trace w @ stepsTrace True steps @ tail \<and>
           closingCalls tail"
proof -
  let ?P = "\<lambda>steps tail. trace w' = trace w @ stepsTrace True steps @ tail \<and>
           closingCalls tail"
  from assms obtain node gen status where
    seq: "sequence w \<noteq> []" and
    nd: "getAssociatedBeliefNode (last (sequence w)) = Some node" and
    cg: "createGenerator gops factory UNINITIALIZED (last (sequence w))
           (getState (last (sequence w))) (getHistoricalData solver (tree w) node) =
         Inr (gen, status)"
    by (auto simp: extendSequence_def Let_def split: if_splits option.splits sum.splits)
  consider (uninit) "status = UNINITIALIZED"
    | (err) "status \<noteq> UNINITIALIZED"
        "Model_isTerminal solver (getState (last (sequence w))) \<or>
         getAction (last (sequence w)) \<noteq> None"
    | (run) "status \<noteq> UNINITIALIZED"
        "\<not> Model_isTerminal solver (getState (last (sequence w)))"
        "getAction (last (sequence w)) = None"
    by blast
  then show ?thesis
  proof cases
    case uninit
    with assms seq nd cg have "w' = w" by (simp add: extendSequence_def)
    then have "?P [] []" by simp
    then show ?thesis by blast
  next
    case err
    with assms seq nd cg have "\<exists>m. w' = called (Call_show_message m) w"
      by (auto simp: extendSequence_def Let_def split: if_splits)
    then obtain m where "?P [] [Call_show_message m]" by (auto simp: called_def)
    then show ?thesis by blast
  next
    case run
    from assms have fin: "finish solver
        (extendLoop fuel solver gops maximumDepth gen True node status w) =
        Some (Inr (status', w'))"
      by (simp add: extendSequence_enters_loop [OF seq nd cg run])
    then obtain ex st n w1 where
      lp: "extendLoop fuel solver gops maximumDepth gen True node status w =
             Some (Inr (ex, st, n, w1))"
      by (auto simp: finish_def split: option.splits sum.splits)
    from extendLoop_trace [OF lp] obtain steps where
      st: "trace w1 = trace w @ stepsTrace True steps" by blast
    show ?thesis
    proof (cases ex)
      case Returned
      with fin lp have "w' = w1" by (simp add: finish_def)
      with st have "?P steps []" by simp
      then show ?thesis by blast
    next
      case Broke
      with fin lp have "afterLoop solver st n w1 = (status', w')" by (simp add: finish_def)
      from afterLoop_trace [OF this] obtain tail where
        "trace w' = trace w1 @ tail" "closingCalls tail" by blast
      with st have "?P steps tail" by simp
      then show ?thesis by blast
    qed
  qed
qed

text \<open>
  C3, as stated, fails in the values of the credit: the call on the second step is
  \<open>updateEstimate(currentNode, 0, +1)\<close>, a value delta of \<open>0\<close> and a visit delta of \<open>+1\<close>. In
  the run below, of two steps from node \<open>0\<close>, the credit to node \<open>1\<close> is recorded with
  \<open>0\<close> and \<open>1\<close> in that order, and no call with a value delta of \<open>1\<close> and a visit delta of
  \<open>0\<close> is made on it.
\<close>

theorem extendSequence_continuation_counterexample:
  "statusOf (extendSequence (Suc (Suc (Suc 0))) chainSolver scriptOps
      [stepOf 1 2 3 4, stepOf 5 6 7 8] startWorld 2) = Some FINISHED \<and>
   callsOf (extendSequence (Suc (Suc (Suc 0))) chainSolver scriptOps
      [stepOf 1 2 3 4, stepOf 5 6 7 8] startWorld 2) =
     [Call_createOrGetChild 0 1 3, Call_updateImmediate 0 1 3 2 1,
      Call_createOrGetInfo 4, Call_addEntry 4,
      Call_updateEstimate 1 0 1,
      Call_createOrGetChild 1 5 7, Call_updateImmediate 1 5 7 6 1,
      Call_createOrGetInfo 8, Call_addEntry 8,
      Call_heuristic (registerNode (newHistoryEntry 8) 2) 8 2,
      Call_updateEstimate 2 7 0] \<and>
   Call_updateEstimate 1 1 0 \<notin> set (callsOf (extendSequence (Suc (Suc (Suc 0))) chainSolver scriptOps
      [stepOf 1 2 3 4, stepOf 5 6 7 8] startWorld 2))"
  unfolding two_step_run
  by (simp add: callsOf_def statusOf_def registerNode_def newHistoryEntry_def)

text \<open>
  C3, amended. A step that is not the first of its call starts with
  \<open>updateEstimate(currentNode, 0, +1)\<close> (value delta \<open>0\<close>, visit delta \<open>+1\<close>) on the current
  belief node, before the child is requested and apart from the \<open>updateImmediate\<close> of the
  step; a first step makes no such call. A whole call records the calls of its steps, of
  which only the first step is without the credit, followed by nothing, by the
  heuristic with its value-only update, or by one message.
\<close>

theorem extendSequence_continuation_calls:
  "(takeStep solver isFirst node r a w1 = Inr (node', w2) \<longrightarrow>
      (\<exists>obs s. observation r = Some obs \<and> nextState r = Some s \<and>
          trace w2 = trace w1 @ stepCalls isFirst (node, a, obs, reward r, s))) \<and>
   (extendSequence fuel solver gops factory w maximumDepth = Some (Inr (status', w')) \<longrightarrow>
      (\<exists>steps tail. trace w' = trace w @ stepsTrace True steps @ tail \<and>
           closingCalls tail))"
  using takeStep_trace [of solver isFirst node r a w1 node' w2]
    extendSequence_trace [of fuel solver gops factory w maximumDepth status' w']
  by blast

theorem extendSequence_continuation_calls_witness:
  "takeStep chainSolver False 0 (stepOf 5 6 7 8) 5 startWorld =
     Inr (1, \<lparr>tree = [(0, 0, 1), (0, 6, 1)], statePool = [0, 8],
              sequence =
                [rootEntry\<lparr>immediateReward := 6, entryAction := Some 5, entryObservation := Some 7\<rparr>,
                 registerNode (newHistoryEntry 8) 1],
              trace = stepCalls False (0, 5, 7, 6, 8)\<rparr>) \<and>
   stepCalls False (0, 5, 7, 6, 8) =
     [Call_updateEstimate 0 0 1, Call_createOrGetChild 0 5 7, Call_updateImmediate 0 5 7 6 1,
      Call_createOrGetInfo 8, Call_addEntry 8] \<and>
   callsOf (extendSequence (Suc (Suc (Suc 0))) chainSolver scriptOps
      [stepOf 1 2 3 4, stepOf 5 6 7 8] startWorld 2) =
     stepsTrace True [(0, 1, 3, 2, 4), (1, 5, 7, 6, 8)] @
     [Call_heuristic (registerNode (newHistoryEntry 8) 2) 8 2, Call_updateEstimate 2 7 0]"
proof -
  have ts: "takeStep chainSolver False 0 (stepOf 5 6 7 8) 5 startWorld =
     Inr (1, \<lparr>tree = [(0, 0, 1), (0, 6, 1)], statePool = [0, 8],
              sequence =
                [rootEntry\<lparr>immediateReward := 6, entryAction := Some 5, entryObservation := Some 7\<rparr>,
                 registerNode (newHistoryEntry 8) 1],
              trace = stepCalls False (0, 5, 7, 6, 8)\<rparr>)"
    by (simp add: run_defs stepCalls_def)
  show ?thesis
    using ts two_step_run
      extendSequence_continuation_calls [of chainSolver False 0 "stepOf 5 6 7 8" 5 startWorld 1
        "\<lparr>tree = [(0, 0, 1), (0, 6, 1)], statePool = [0, 8],
              sequence =
                [rootEntry\<lparr>immediateReward := 6, entryAction := Some 5, entryObservation := Some 7\<rparr>,
                 registerNode (newHistoryEntry 8) 1],
              trace = stepCalls False (0, 5, 7, 6, 8)\<rparr>"
        "Suc (Suc (Suc 0))" scriptOps "[stepOf 1 2 3 4, stepOf 5 6 7 8]" startWorld 2 FINISHED]
    by (simp add: callsOf_def stepCalls_def registerNode_def newHistoryEntry_def)
qed

end
